theory Spec2Isabelle
  imports Complex_Main "HOL-Library.List_Lexorder" "HOL-Library.Char_ord"
begin

section \<open>Python values and exceptions\<close>

text \<open>
  The program is the notebook \<^verbatim>\<open>docs/cudf/source/dask-xgb-10min.ipynb\<close>: nine code
  cells that are executed from top to bottom.  An exception raised by a statement is a
  value \<open>Inl e\<close>; \<open>LibraryError k\<close> stands for whatever an external library raises.
\<close>

datatype error =
  IndexError | KeyError | NameError | ValueError | TypeError | AttributeError
  | ZeroDivisionError
  | LibraryError nat

definition bind_py :: "error + 'a \<Rightarrow> ('a \<Rightarrow> error + 'b) \<Rightarrow> error + 'b" where
  "bind_py m f = (case m of Inl e \<Rightarrow> Inl e | Inr v \<Rightarrow> f v)"

text \<open>Reading a variable of the notebook's namespace that has not been bound.\<close>

definition var :: "'a option \<Rightarrow> error + 'a" where
  "var v = (case v of None \<Rightarrow> Inl NameError | Some a \<Rightarrow> Inr a)"

text \<open>\<^verbatim>\<open>d[k]\<close> on a dictionary, kept as an association list.\<close>

definition getitem_dict :: "('k \<times> 'v) list \<Rightarrow> 'k \<Rightarrow> error + 'v" where
  "getitem_dict d k = (case map_of d k of None \<Rightarrow> Inl KeyError | Some v \<Rightarrow> Inr v)"

text \<open>\<^verbatim>\<open>xs[0]\<close> on a list.\<close>

definition getitem0 :: "'a list \<Rightarrow> error + 'a" where
  "getitem0 xs = (case xs of [] \<Rightarrow> Inl IndexError | x # _ \<Rightarrow> Inr x)"

section \<open>Strings: \<^verbatim>\<open>str.split()\<close>\<close>

text \<open>
  The output of \<^verbatim>\<open>hostname --all-ip-addresses\<close> is ASCII text.  \<^verbatim>\<open>str.isspace\<close> on
  ASCII holds for the code points 9 to 13, 28 to 31 and 32.
\<close>

definition isspace :: "char \<Rightarrow> bool" where
  "isspace c = ((of_char c :: nat) \<in> {9, 10, 11, 12, 13, 28, 29, 30, 31, 32})"

text \<open>
  \<^verbatim>\<open>s.split()\<close> without a separator: runs of whitespace separate the tokens, and no empty
  token is produced.  \<open>cur\<close> is the token being scanned.
\<close>

fun split_acc :: "string \<Rightarrow> string \<Rightarrow> string list" where
  "split_acc cur [] = (if cur = [] then [] else [cur])"
| "split_acc cur (c # cs) =
     (if isspace c then (if cur = [] then split_acc [] cs else cur # split_acc [] cs)
      else split_acc (cur @ [c]) cs)"

definition str_split :: "string \<Rightarrow> string list" where
  "str_split s = split_acc [] s"

text \<open>\<^verbatim>\<open>IPADDR = str(output.decode()).split()[0]\<close>\<close>

definition IPADDR_of :: "string \<Rightarrow> error + string" where
  "IPADDR_of output = getitem0 (str_split output)"

definition cmd :: string where
  "cmd = ''hostname --all-ip-addresses''"

section \<open>cuDF data frames\<close>

text \<open>
  A cell of the table holds an \<^verbatim>\<open>int64\<close> or a finite \<^verbatim>\<open>float64\<close>, which is the rational number
  it denotes.  The frame operations of the notebook only compare such values, which is exact;
  they do no arithmetic on them.
\<close>

datatype scalar = I int | F real

fun to_real :: "scalar \<Rightarrow> real" where
  "to_real (I i) = of_int i"
| "to_real (F r) = r"

text \<open>A row carries its index label and one cell per column, in column order.\<close>

record row =
  label :: nat
  cells :: "(string \<times> scalar) list"

record dataframe =
  columns :: "string list"
  rows :: "row list"

definition cell :: "row \<Rightarrow> string \<Rightarrow> scalar option" where
  "cell r c = map_of (cells r) c"

text \<open>
  \<^verbatim>\<open>cudf.DataFrame({c1: a1, c2: a2, ...})\<close>: the arrays must have one length, and the index is
  the range \<open>0, ..., n - 1\<close>.
\<close>

definition DataFrame :: "(string \<times> scalar list) list \<Rightarrow> error + dataframe" where
  "DataFrame d =
     (case d of
        [] \<Rightarrow> Inr \<lparr>columns = [], rows = []\<rparr>
      | (c0, v0) # _ \<Rightarrow>
          if list_all (\<lambda>(c, vs). length vs = length v0) d
          then Inr \<lparr>columns = map fst d,
                    rows = map (\<lambda>i. \<lparr>label = i, cells = map (\<lambda>(c, vs). (c, vs ! i)) d\<rparr>)
                             [0..<length v0]\<rparr>
          else Inl ValueError)"

text \<open>
  The two query strings of the notebook, \<^verbatim>\<open>'y < 0.5'\<close> and \<^verbatim>\<open>'y > 0.5'\<close>, compare one column
  with a constant.  A query keeps the rows whose cell satisfies the comparison, with their
  labels.
\<close>

datatype cmp = Lt | Gt

fun compare :: "cmp \<Rightarrow> real \<Rightarrow> real \<Rightarrow> bool" where
  "compare Lt a b = (a < b)"
| "compare Gt a b = (a > b)"

type_synonym expr = "string \<times> cmp \<times> real"

definition satisfies :: "expr \<Rightarrow> row \<Rightarrow> bool" where
  "satisfies q r =
     (case q of (c, op, k) \<Rightarrow>
        (case cell r c of None \<Rightarrow> False | Some v \<Rightarrow> compare op (to_real v) k))"

definition query :: "dataframe \<Rightarrow> expr \<Rightarrow> error + dataframe" where
  "query df q =
     (if fst q \<in> set (columns df) then Inr (df\<lparr>rows := filter (satisfies q) (rows df)\<rparr>)
      else Inl NameError)"

text \<open>\<^verbatim>\<open>df[[c1, ...]]\<close> selects columns; \<^verbatim>\<open>df[c]\<close> is the series of one column.\<close>

definition getitem_cols :: "dataframe \<Rightarrow> string list \<Rightarrow> error + dataframe" where
  "getitem_cols df cs =
     (if set cs \<subseteq> set (columns df)
      then Inr \<lparr>columns = cs,
                rows = map (\<lambda>r. r\<lparr>cells := List.map_filter
                                     (\<lambda>c. map_option (Pair c) (cell r c)) cs\<rparr>) (rows df)\<rparr>
      else Inl KeyError)"

type_synonym series = "(nat \<times> scalar) list"

definition getitem_col :: "dataframe \<Rightarrow> string \<Rightarrow> error + series" where
  "getitem_col df c =
     (if c \<in> set (columns df)
      then Inr (List.map_filter (\<lambda>r. map_option (Pair (label r)) (cell r c)) (rows df))
      else Inl KeyError)"

text \<open>\<^verbatim>\<open>Index.difference\<close>: the labels not in the other index, unique and sorted.\<close>

definition columns_difference :: "string list \<Rightarrow> string list \<Rightarrow> string list" where
  "columns_difference cs other = sort (remdups (filter (\<lambda>c. c \<notin> set other) cs))"

section \<open>Dask data frames\<close>

text \<open>A Dask frame is a list of partitions, each a cuDF frame, and the common column names.\<close>

record dask_frame =
  meta :: "string list"
  partitions :: "dataframe list"

fun mapM :: "('a \<Rightarrow> error + 'b) \<Rightarrow> 'a list \<Rightarrow> error + 'b list" where
  "mapM f [] = Inr []"
| "mapM f (x # xs) = bind_py (f x) (\<lambda>y. bind_py (mapM f xs) (\<lambda>ys. Inr (y # ys)))"

function chunks :: "nat \<Rightarrow> 'a list \<Rightarrow> 'a list list" where
  "chunks k xs = (if k = 0 \<or> xs = [] then [] else take k xs # chunks k (drop k xs))"
  by pat_completeness auto
termination
  by (relation "measure (\<lambda>(k, xs). length xs)") auto

declare chunks.simps [simp del]

text \<open>
  \<^verbatim>\<open>dask_cudf.from_cudf(df, npartitions=np)\<close> cuts the rows into consecutive slices of
  \<open>ceil (n / np)\<close> rows; a frame without rows is its own single partition.  With the
  \<open>1000000\<close> rows and \<open>8\<close> partitions of the notebook the boundaries are the multiples of
  \<open>125000\<close>.  Dask derives the boundaries from the index and may place the last one
  differently for other sizes; the properties proved below depend only on the slices being
  consecutive and, for the count of partitions, on the notebook's sizes.
\<close>

definition from_cudf :: "dataframe \<Rightarrow> nat \<Rightarrow> error + dask_frame" where
  "from_cudf df np =
     (if np = 0 then Inl ZeroDivisionError
      else let n = length (rows df); chunksize = (n + np - 1) div np
           in Inr \<lparr>meta = columns df,
                   partitions = (if n = 0 then [df]
                                 else map (\<lambda>rs. df\<lparr>rows := rs\<rparr>) (chunks chunksize (rows df)))\<rparr>)"

definition dd_query :: "dask_frame \<Rightarrow> expr \<Rightarrow> error + dask_frame" where
  "dd_query d q =
     bind_py (mapM (\<lambda>p. query p q) (partitions d)) (\<lambda>ps. Inr (d\<lparr>partitions := ps\<rparr>))"

definition dd_getitem_cols :: "dask_frame \<Rightarrow> string list \<Rightarrow> error + dask_frame" where
  "dd_getitem_cols d cs =
     bind_py (mapM (\<lambda>p. getitem_cols p cs) (partitions d))
       (\<lambda>ps. Inr \<lparr>meta = cs, partitions = ps\<rparr>)"

definition dd_getitem_col :: "dask_frame \<Rightarrow> string \<Rightarrow> error + series list" where
  "dd_getitem_col d c = mapM (\<lambda>p. getitem_col p c) (partitions d)"

text \<open>\<^verbatim>\<open>.compute()\<close> concatenates the partitions into one cuDF frame.\<close>

definition dd_compute :: "dask_frame \<Rightarrow> dataframe" where
  "dd_compute d = \<lparr>columns = meta d, rows = concat (map rows (partitions d))\<rparr>"

section \<open>The data cell of the notebook\<close>

definition nb_size :: nat where
  "nb_size = 1000000"

definition npartitions :: nat where
  "npartitions = 8"

text \<open>
  \<^verbatim>\<open>cdf = cudf.DataFrame({'x': cupy.random.randint(0, npartitions, size=size),
                           'y': cupy.random.normal(size=size)})\<close>
  for the two random arrays \<open>xs\<close> and \<open>ys\<close>.
\<close>

definition make_cdf :: "int list \<Rightarrow> real list \<Rightarrow> error + dataframe" where
  "make_cdf xs ys = DataFrame [(''x'', map I xs), (''y'', map F ys)]"

definition train_expr :: expr where
  "train_expr = (''y'', Lt, 1 / 2)"

definition test_expr :: expr where
  "test_expr = (''y'', Gt, 1 / 2)"

text \<open>
  \<^verbatim>\<open>X = ddf.query(q); Y = X[['x']]; X = X[X.columns.difference(['x'])]\<close> gives the subset
  selected by the query, its labels \<open>Y\<close> and its features \<open>X\<close>.
\<close>

definition split_xy :: "dask_frame \<Rightarrow> expr \<Rightarrow> error + (dask_frame \<times> dask_frame \<times> dask_frame)" where
  "split_xy ddf q =
     bind_py (dd_query ddf q) (\<lambda>sub.
     bind_py (dd_getitem_cols sub [''x'']) (\<lambda>Y.
     bind_py (dd_getitem_cols sub (columns_difference (meta sub) [''x''])) (\<lambda>X.
     Inr (sub, X, Y))))"


section \<open>Series and the metric\<close>

text \<open>
  A series pairs index labels with values.  The result of an arithmetic operation is a
  float series in which \<open>None\<close> is a missing value; as a number, \<open>None\<close> is \<^verbatim>\<open>nan\<close>.
\<close>

type_synonym fseries = "(nat \<times> real option) list"

text \<open>
  A \<^verbatim>\<open>float64\<close> is the real number it denotes.  The arithmetic that cuPy, cuDF and Dask do
  on such values rounds, and a reduction adds in an order the library chooses, so the
  operations are parameters of the model: the rounded difference and square, the mean of a
  series or an array, the mean of a Dask series (from the sums and counts of its
  partitions), and the square root.
\<close>

record float_ops =
  sub64 :: "real \<Rightarrow> real \<Rightarrow> real"
  square64 :: "real \<Rightarrow> real"
  mean64 :: "fseries \<Rightarrow> real option"
  dask_mean64 :: "fseries list \<Rightarrow> real option"
  sqrt64 :: "real option \<Rightarrow> real option"

text \<open>\<^verbatim>\<open>cudf.Series(part)\<close> of an array of predictions: the index is \<open>0, ..., n - 1\<close>.\<close>

definition Series :: "real list \<Rightarrow> series" where
  "Series vs = zip [0..<length vs] (map F vs)"

text \<open>\<^verbatim>\<open>s.reset_index(drop=True)\<close> replaces the labels by \<open>0, ..., n - 1\<close>.\<close>

definition reset_index :: "series \<Rightarrow> series" where
  "reset_index s = zip [0..<length s] (map snd s)"

text \<open>
  \<^verbatim>\<open>a - b\<close> on two series is aligned on the labels: with equal indexes it is elementwise;
  with different indexes of unique labels every label of either side appears in sorted order,
  and the value is missing where one side has no such label.
\<close>

definition series_sub :: "float_ops \<Rightarrow> series \<Rightarrow> series \<Rightarrow> error + fseries" where
  "series_sub ops a b =
     (if map fst a = map fst b
      then Inr (map (\<lambda>((l, v), (_, w)). (l, Some (sub64 ops (to_real v) (to_real w)))) (zip a b))
      else if distinct (map fst a) \<and> distinct (map fst b)
      then Inr (map (\<lambda>l. (l, case (map_of a l, map_of b l) of
                                (Some v, Some w) \<Rightarrow> Some (sub64 ops (to_real v) (to_real w))
                              | _ \<Rightarrow> None))
                  (sort (remdups (map fst a @ map fst b))))
      else Inl ValueError)"

text \<open>\<^verbatim>\<open>s ** 2\<close>\<close>

definition series_pow2 :: "float_ops \<Rightarrow> fseries \<Rightarrow> fseries" where
  "series_pow2 ops s = map (\<lambda>(l, v). (l, map_option (square64 ops) v)) s"

text \<open>
  A Dask series is a list of partitions.  \<^verbatim>\<open>reset_index\<close> restarts the labels in every
  partition.  After it the divisions are unknown, and a binary operation works partition
  by partition; it is refused when the numbers of partitions differ.
\<close>

definition dd_reset_index :: "series list \<Rightarrow> series list" where
  "dd_reset_index parts = map reset_index parts"

definition dd_sub :: "float_ops \<Rightarrow> series list \<Rightarrow> series list \<Rightarrow> error + fseries list" where
  "dd_sub ops a b =
     (if length a \<noteq> length b then Inl ValueError
      else mapM (\<lambda>(p, t). series_sub ops p t) (zip a b))"

definition dd_pow2 :: "float_ops \<Rightarrow> fseries list \<Rightarrow> fseries list" where
  "dd_pow2 ops parts = map (series_pow2 ops) parts"

text \<open>
  Method 1, after \<^verbatim>\<open>pred = xgb.dask.predict(client, booster, X_test)\<close> and
  \<^verbatim>\<open>true = Y_test['x']\<close>:
  \<^verbatim>\<open>
  pred = pred.map_partitions(lambda part: cudf.Series(part))
  pred = pred.reset_index(drop=True)
  true = true.reset_index(drop=True)
  squared_error = ((pred - true)**2)
  rmse = cupy.sqrt(squared_error.mean().compute())
  \<close>
  The prediction arrives as one array per partition of the test set.
\<close>

definition method1_rmse :: "float_ops \<Rightarrow> real list list \<Rightarrow> series list \<Rightarrow> error + real option" where
  "method1_rmse ops pred0 true0 =
     (let pred1 = map Series pred0;
          pred = dd_reset_index pred1;
          true = dd_reset_index true0
      in bind_py (dd_sub ops pred true) (\<lambda>diff.
         let squared_error = dd_pow2 ops diff
         in Inr (sqrt64 ops (dask_mean64 ops squared_error))))"

text \<open>
  Method 2, after \<^verbatim>\<open>pred = booster.inplace_predict(data=X_test.compute())\<close> and
  \<^verbatim>\<open>true = Y_test['x']\<close>:
  \<^verbatim>\<open>
  true = true.reset_index(drop=True).compute()
  squared_error = ((pred - true)**2)
  rmse = cupy.sqrt(squared_error.mean())
  \<close>
  Here \<open>pred\<close> is one array without an index, and the subtraction is by position.
\<close>

definition array_sub_series :: "float_ops \<Rightarrow> real list \<Rightarrow> series \<Rightarrow> error + fseries" where
  "array_sub_series ops a s =
     (if length a \<noteq> length s then Inl ValueError
      else Inr (map (\<lambda>(v, (l, w)). (l, Some (sub64 ops v (to_real w)))) (zip a s)))"

definition method2_rmse :: "float_ops \<Rightarrow> real list \<Rightarrow> series list \<Rightarrow> error + real option" where
  "method2_rmse ops pred true0 =
     (let true = concat (dd_reset_index true0)
      in bind_py (array_sub_series ops pred true) (\<lambda>diff.
         let squared_error = series_pow2 ops diff
         in Inr (sqrt64 ops (mean64 ops squared_error))))"


section \<open>The external libraries\<close>

text \<open>
  The calls into cuPy, Dask, Dask-CUDA, XGBoost and the operating system are parameters of
  the model.  Each call reads and changes a hidden state \<open>'w\<close> of the outside world (the
  cluster, the random generator, the objects the libraries own) and either raises or returns;
  in both cases it leaves a new state of the world.  Objects owned by a library (cluster,
  client, matrix, booster) are handles.  \<open>arith\<close> is the float arithmetic of the libraries.
\<close>

type_synonym handle = nat

datatype pyval = PInt int | PStr string

type_synonym pydict = "(string \<times> pyval) list"

type_synonym history = "(string \<times> (string \<times> real list) list) list"

text \<open>
  The values of the dictionary \<^verbatim>\<open>trained_model\<close>, which the names \<^verbatim>\<open>booster\<close> and \<^verbatim>\<open>history\<close>
  are bound to: a booster or an evaluation history.
\<close>

datatype obj = Booster handle | History history

text \<open>
  \<open>xgb_dask_train\<close> yields the booster and the evaluation history; the notebook states that
  the call ``returns a dictionary containing the resulting booster and evaluation history'',
  and \<open>exec\<close> below builds that dictionary.
\<close>

record 'w library =
  import_modules :: "'w \<Rightarrow> error \<times> 'w + unit \<times> 'w"
  popen_communicate :: "string list \<Rightarrow> 'w \<Rightarrow> error \<times> 'w + string \<times> 'w"
  LocalCUDACluster :: "string \<Rightarrow> 'w \<Rightarrow> error \<times> 'w + handle \<times> 'w"
  Client :: "handle \<Rightarrow> 'w \<Rightarrow> error \<times> 'w + handle \<times> 'w"
  cupy_random_randint :: "int \<Rightarrow> int \<Rightarrow> nat \<Rightarrow> 'w \<Rightarrow> error \<times> 'w + int list \<times> 'w"
  cupy_random_normal :: "nat \<Rightarrow> 'w \<Rightarrow> error \<times> 'w + real list \<times> 'w"
  dask_wait :: "dask_frame list \<Rightarrow> 'w \<Rightarrow> error \<times> 'w + unit \<times> 'w"
  xgb_DaskDMatrix :: "handle \<Rightarrow> dask_frame \<Rightarrow> dask_frame \<Rightarrow> 'w \<Rightarrow> error \<times> 'w + handle \<times> 'w"
  xgb_dask_train ::
    "handle \<Rightarrow> pydict \<Rightarrow> handle \<Rightarrow> int \<Rightarrow> 'w \<Rightarrow> error \<times> 'w + (handle \<times> history) \<times> 'w"
  booster_set_param :: "handle \<Rightarrow> (string \<times> string) list \<Rightarrow> 'w \<Rightarrow> error \<times> 'w + unit \<times> 'w"
  xgb_dask_predict :: "handle \<Rightarrow> obj \<Rightarrow> dask_frame \<Rightarrow> 'w \<Rightarrow> error \<times> 'w + real list list \<times> 'w"
  booster_inplace_predict :: "handle \<Rightarrow> dataframe \<Rightarrow> 'w \<Rightarrow> error \<times> 'w + real list \<times> 'w"
  arith :: float_ops

section \<open>The notebook\<close>

text \<open>
  The state is the process environment, the outside world, and the variables of the
  notebook that a later statement reads; \<open>None\<close> is a name that is not bound yet.  The
  variables \<^verbatim>\<open>pred\<close>, \<^verbatim>\<open>true\<close> and \<^verbatim>\<open>squared_error\<close> are local to the statement that
  computes a metric.  \<open>shown\<close> lists the exceptions whose traceback a \<^verbatim>\<open>%%time\<close> magic has
  shown.
\<close>

record 'w state =
  world :: 'w
  environ :: "string \<Rightarrow> string option"
  output' :: "string option"
  IPADDR :: "string option"
  cluster :: "handle option"
  client :: "handle option"
  cdf :: "dataframe option"
  ddf :: "dask_frame option"
  X_train :: "dask_frame option"
  Y_train :: "dask_frame option"
  X_test :: "dask_frame option"
  Y_test :: "dask_frame option"
  dtrain :: "handle option"
  params :: "pydict option"
  trained_model :: "(string \<times> obj) list option"
  booster :: "obj option"
  history :: "obj option"
  rmse :: "real option option"
  shown :: "error list"

definition init :: "'w \<Rightarrow> (string \<Rightarrow> string option) \<Rightarrow> 'w state" where
  "init w env =
     \<lparr>world = w, environ = env, output' = None, IPADDR = None, cluster = None, client = None,
      cdf = None, ddf = None, X_train = None, Y_train = None, X_test = None, Y_test = None,
      dtrain = None, params = None, trained_model = None, booster = None, history = None,
      rmse = None, shown = []\<rparr>"

text \<open>
  A statement that raises leaves the exception and the state in which it was raised.  A call
  into a library raises what the library raises, or the result is used; the world moves on
  in both cases.  \<open>try_py\<close> is a step of the statement that does not touch the state.
\<close>

type_synonym 'w outcome = "error \<times> 'w state + 'w state"

definition call ::
  "('w \<Rightarrow> error \<times> 'w + 'a \<times> 'w) \<Rightarrow> 'w state \<Rightarrow> ('a \<Rightarrow> 'w state \<Rightarrow> 'w outcome) \<Rightarrow> 'w outcome" where
  "call f s k =
     (case f (world s) of
        Inl (e, w) \<Rightarrow> Inl (e, s\<lparr>world := w\<rparr>)
      | Inr (a, w) \<Rightarrow> k a (s\<lparr>world := w\<rparr>))"

definition try_py :: "'w state \<Rightarrow> error + 'a \<Rightarrow> ('a \<Rightarrow> 'w outcome) \<Rightarrow> 'w outcome" where
  "try_py s m f = (case m of Inl e \<Rightarrow> Inl (e, s) | Inr v \<Rightarrow> f v)"

text \<open>The statements of the code cells, in the order of the file.\<close>

datatype stmt =
  EnvMagic | Imports | RunHostname | AssignIPADDR | MakeCluster | MakeClient
  | MakeFrame | FromCudf | SplitTrain | SplitTest
  | Version
  | Wait | MakeDMatrix
  | AssignParams | Train
  | GetBooster | GetHistory | SetParam
  | Method1 | Method2

text \<open>
  The nine code cells.  A cell that starts with the magic \<^verbatim>\<open>%%time\<close> is run by the magic:
  the cell of the training call and the two cells that compute the metric.
\<close>

datatype cell = Plain "stmt list" | Timed "stmt list"

fun body :: "cell \<Rightarrow> stmt list" where
  "body (Plain cs) = cs"
| "body (Timed cs) = cs"

definition notebook :: "cell list" where
  "notebook =
     [Plain [EnvMagic],
      Plain [Imports, RunHostname, AssignIPADDR, MakeCluster, MakeClient],
      Plain [MakeFrame, FromCudf, SplitTrain, SplitTest],
      Plain [Version],
      Plain [Wait, MakeDMatrix],
      Timed [AssignParams, Train],
      Plain [GetBooster, GetHistory, SetParam],
      Timed [Method1],
      Timed [Method2]]"

definition notebook_params :: pydict where
  "notebook_params =
     [(''num_rounds'', PInt 100),
      (''max_depth'', PInt 8),
      (''max_leaves'', PInt (2 ^ 8)),
      (''tree_method'', PStr ''gpu_hist''),
      (''objective'', PStr ''reg:squarederror''),
      (''grow_policy'', PStr ''lossguide'')]"

text \<open>
  The arguments of \<^verbatim>\<open>xgb.dask.train(client, params, dtrain, num_boost_round=params['num_rounds'])\<close>,
  evaluated from left to right.  In a run \<^verbatim>\<open>params\<close> is the dictionary assigned just before,
  whose \<^verbatim>\<open>'num_rounds'\<close> is an integer; the library is not given anything else.
\<close>

definition train_args :: "'w state \<Rightarrow> error + handle \<times> pydict \<times> handle \<times> int" where
  "train_args s =
     bind_py (var (client s)) (\<lambda>c.
     bind_py (var (params s)) (\<lambda>p.
     bind_py (var (dtrain s)) (\<lambda>d.
     bind_py (getitem_dict p ''num_rounds'') (\<lambda>n.
       case n of PInt k \<Rightarrow> Inr (c, p, d, k) | PStr _ \<Rightarrow> Inl TypeError))))"

text \<open>
  \<^verbatim>\<open>booster.set_param\<close> and \<^verbatim>\<open>booster.inplace_predict\<close> look the method up on the object bound
  to \<^verbatim>\<open>booster\<close>; a history, which is a dictionary, has no such attribute.
\<close>

definition booster_handle :: "'w state \<Rightarrow> error + handle" where
  "booster_handle s =
     bind_py (var (booster s)) (\<lambda>b. case b of Booster h \<Rightarrow> Inr h | History _ \<Rightarrow> Inl AttributeError)"

text \<open>
  One statement, as Python runs it: an exception of a step ends the statement.  The
  \<^verbatim>\<open>print\<close> calls and the display of a cell's last expression only write to the output of
  the cell, and are left out.
\<close>

fun exec :: "'w library \<Rightarrow> stmt \<Rightarrow> 'w state \<Rightarrow> 'w outcome" where
  "exec L EnvMagic s =
     \<comment> \<open>\<^verbatim>\<open>%env NCCL_P2P_DISABLE=1\<close>\<close>
     Inr (s\<lparr>environ := (environ s)(''NCCL_P2P_DISABLE'' \<mapsto> ''1'')\<rparr>)"
| "exec L Imports s =
     \<comment> \<open>\<^verbatim>\<open>import cudf\<close> ... \<^verbatim>\<open>import subprocess\<close>\<close>
     call (import_modules L) s (\<lambda>_ s. Inr s)"
| "exec L RunHostname s =
     \<comment> \<open>\<^verbatim>\<open>process = subprocess.Popen(cmd.split(), stdout=subprocess.PIPE)\<close>,
         \<^verbatim>\<open>output, error = process.communicate()\<close>; the text is kept decoded in \<open>output'\<close>\<close>
     call (popen_communicate L (str_split cmd)) s (\<lambda>out s. Inr (s\<lparr>output' := Some out\<rparr>))"
| "exec L AssignIPADDR s =
     \<comment> \<open>\<^verbatim>\<open>IPADDR = str(output.decode()).split()[0]\<close>\<close>
     try_py s (var (output' s)) (\<lambda>out.
     try_py s (IPADDR_of out) (\<lambda>ip. Inr (s\<lparr>IPADDR := Some ip\<rparr>)))"
| "exec L MakeCluster s =
     \<comment> \<open>\<^verbatim>\<open>cluster = LocalCUDACluster(ip=IPADDR)\<close>\<close>
     try_py s (var (IPADDR s)) (\<lambda>ip.
     call (LocalCUDACluster L ip) s (\<lambda>c s. Inr (s\<lparr>cluster := Some c\<rparr>)))"
| "exec L MakeClient s =
     \<comment> \<open>\<^verbatim>\<open>client = Client(cluster)\<close>\<close>
     try_py s (var (cluster s)) (\<lambda>cl.
     call (Client L cl) s (\<lambda>c s. Inr (s\<lparr>client := Some c\<rparr>)))"
| "exec L MakeFrame s =
     \<comment> \<open>\<^verbatim>\<open>size = 1000000\<close>, \<^verbatim>\<open>npartitions = 8\<close>, \<^verbatim>\<open>cdf = cudf.DataFrame({...})\<close>\<close>
     call (cupy_random_randint L 0 (int npartitions) nb_size) s (\<lambda>xs s.
     call (cupy_random_normal L nb_size) s (\<lambda>ys s.
     try_py s (make_cdf xs ys) (\<lambda>df. Inr (s\<lparr>cdf := Some df\<rparr>))))"
| "exec L FromCudf s =
     \<comment> \<open>\<^verbatim>\<open>ddf = dask_cudf.from_cudf(cdf,npartitions=npartitions)\<close>\<close>
     try_py s (var (cdf s)) (\<lambda>df.
     try_py s (from_cudf df npartitions) (\<lambda>d. Inr (s\<lparr>ddf := Some d\<rparr>)))"
| "exec L SplitTrain s =
     \<comment> \<open>\<^verbatim>\<open>X_train = ddf.query('y < 0.5')\<close> and the two selections of columns\<close>
     try_py s (var (ddf s)) (\<lambda>d.
     try_py s (split_xy d train_expr) (\<lambda>(sub, X, Y).
       Inr (s\<lparr>X_train := Some X, Y_train := Some Y\<rparr>)))"
| "exec L SplitTest s =
     \<comment> \<open>\<^verbatim>\<open>X_test = ddf.query('y > 0.5')\<close> and the two selections of columns\<close>
     try_py s (var (ddf s)) (\<lambda>d.
     try_py s (split_xy d test_expr) (\<lambda>(sub, X, Y).
       Inr (s\<lparr>X_test := Some X, Y_test := Some Y\<rparr>)))"
| "exec L Version s =
     \<comment> \<open>\<^verbatim>\<open>xgb.__version__\<close>\<close>
     Inr s"
| "exec L Wait s =
     \<comment> \<open>\<^verbatim>\<open>done = wait([X_train, Y_train])\<close>\<close>
     try_py s (var (X_train s)) (\<lambda>X.
     try_py s (var (Y_train s)) (\<lambda>Y.
     call (dask_wait L [X, Y]) s (\<lambda>_ s. Inr s)))"
| "exec L MakeDMatrix s =
     \<comment> \<open>\<^verbatim>\<open>dtrain = xgb.dask.DaskDMatrix(client, X_train, Y_train)\<close>\<close>
     try_py s (var (client s)) (\<lambda>c.
     try_py s (var (X_train s)) (\<lambda>X.
     try_py s (var (Y_train s)) (\<lambda>Y.
     call (xgb_DaskDMatrix L c X Y) s (\<lambda>d s. Inr (s\<lparr>dtrain := Some d\<rparr>)))))"
| "exec L AssignParams s =
     \<comment> \<open>\<^verbatim>\<open>params = {...}\<close>\<close>
     Inr (s\<lparr>params := Some notebook_params\<rparr>)"
| "exec L Train s =
     \<comment> \<open>\<^verbatim>\<open>trained_model = xgb.dask.train(client,params, dtrain, num_boost_round=params['num_rounds'])\<close>\<close>
     try_py s (train_args s) (\<lambda>(c, p, d, n).
     call (xgb_dask_train L c p d n) s (\<lambda>(b, h) s.
       Inr (s\<lparr>trained_model := Some [(''booster'', Booster b), (''history'', History h)]\<rparr>)))"
| "exec L GetBooster s =
     \<comment> \<open>\<^verbatim>\<open>booster = trained_model['booster']\<close>\<close>
     try_py s (var (trained_model s)) (\<lambda>m.
     try_py s (getitem_dict m ''booster'') (\<lambda>b. Inr (s\<lparr>booster := Some b\<rparr>)))"
| "exec L GetHistory s =
     \<comment> \<open>\<^verbatim>\<open>history = trained_model['history']\<close>\<close>
     try_py s (var (trained_model s)) (\<lambda>m.
     try_py s (getitem_dict m ''history'') (\<lambda>h. Inr (s\<lparr>history := Some h\<rparr>)))"
| "exec L SetParam s =
     \<comment> \<open>\<^verbatim>\<open>booster.set_param({'predictor': 'gpu_predictor'})\<close>\<close>
     try_py s (booster_handle s) (\<lambda>b.
     call (booster_set_param L b [(''predictor'', ''gpu_predictor'')]) s (\<lambda>_ s. Inr s))"
| "exec L Method1 s =
     \<comment> \<open>\<^verbatim>\<open>pred = xgb.dask.predict(client,booster, X_test)\<close>, \<^verbatim>\<open>true = Y_test['x']\<close>, the metric\<close>
     try_py s (var (client s)) (\<lambda>c.
     try_py s (var (booster s)) (\<lambda>b.
     try_py s (var (X_test s)) (\<lambda>X.
     call (xgb_dask_predict L c b X) s (\<lambda>pred s.
     try_py s (var (Y_test s)) (\<lambda>Y.
     try_py s (dd_getitem_col Y ''x'') (\<lambda>true.
     try_py s (method1_rmse (arith L) pred true) (\<lambda>r. Inr (s\<lparr>rmse := Some r\<rparr>))))))))"
| "exec L Method2 s =
     \<comment> \<open>\<^verbatim>\<open>pred = booster.inplace_predict(data=X_test.compute())\<close>, \<^verbatim>\<open>true = Y_test['x']\<close>, the metric\<close>
     try_py s (booster_handle s) (\<lambda>b.
     try_py s (var (X_test s)) (\<lambda>X.
     call (booster_inplace_predict L b (dd_compute X)) s (\<lambda>pred s.
     try_py s (var (Y_test s)) (\<lambda>Y.
     try_py s (dd_getitem_col Y ''x'') (\<lambda>true.
     try_py s (method2_rmse (arith L) pred true) (\<lambda>r. Inr (s\<lparr>rmse := Some r\<rparr>)))))))"

text \<open>
  Running the body of a cell: the first exception ends it.  The result is the trace of the
  statements that were started, each with the state it started in, and the final state or
  the exception with the state in which it was raised.
\<close>

fun run_body ::
  "'w library \<Rightarrow> stmt list \<Rightarrow> 'w state \<Rightarrow> (stmt \<times> 'w state) list \<times> 'w outcome" where
  "run_body L [] s = ([], Inr s)"
| "run_body L (c # cs) s =
     (case exec L c s of
        Inl es \<Rightarrow> ([(c, s)], Inl es)
      | Inr s' \<Rightarrow> (case run_body L cs s' of (tr, r) \<Rightarrow> ((c, s) # tr, r)))"

text \<open>
  Running a cell.  An exception of a plain cell is the error of the cell.  The magic
  \<^verbatim>\<open>%%time\<close> runs the body inside \<^verbatim>\<open>try: ... except: self.shell.showtraceback(); return\<close>
  (IPython 7, which goes with the notebook's Python 3.7.6): when the body raises, the
  traceback is shown and the cell ends like a cell that raised nothing, with the names bound
  before the exception still bound.
\<close>

definition show_traceback :: "error \<Rightarrow> 'w state \<Rightarrow> 'w state" where
  "show_traceback e s = s\<lparr>shown := shown s @ [e]\<rparr>"

fun run_cell ::
  "'w library \<Rightarrow> cell \<Rightarrow> 'w state \<Rightarrow> (stmt \<times> 'w state) list \<times> (error + 'w state)" where
  "run_cell L (Plain cs) s =
     (case run_body L cs s of
        (tr, Inl (e, s')) \<Rightarrow> (tr, Inl e)
      | (tr, Inr s') \<Rightarrow> (tr, Inr s'))"
| "run_cell L (Timed cs) s =
     (case run_body L cs s of
        (tr, Inl (e, s')) \<Rightarrow> (tr, Inr (show_traceback e s'))
      | (tr, Inr s') \<Rightarrow> (tr, Inr s'))"

text \<open>
  Running the cells from top to bottom: the error of a cell ends the run.  The result is
  the trace of all statements started, and the error or the final state.
\<close>

fun run ::
  "'w library \<Rightarrow> cell list \<Rightarrow> 'w state \<Rightarrow> (stmt \<times> 'w state) list \<times> (error + 'w state)" where
  "run L [] s = ([], Inr s)"
| "run L (c # cs) s =
     (case run_cell L c s of
        (tr, Inl e) \<Rightarrow> (tr, Inl e)
      | (tr, Inr s') \<Rightarrow> (case run L cs s' of (tr', r) \<Rightarrow> (tr @ tr', r)))"

text \<open>
  The exception that the library raises when statement \<open>c\<close> starts in state \<open>s\<close>: that of
  the first call of the statement into a library that raises, if the statement gets as far
  as that call.
\<close>

definition raised :: "error \<times> 'w + 'a \<times> 'w \<Rightarrow> error option" where
  "raised r = (case r of Inl (e, w) \<Rightarrow> Some e | Inr _ \<Rightarrow> None)"

fun library_raises :: "'w library \<Rightarrow> stmt \<Rightarrow> 'w state \<Rightarrow> error option" where
  "library_raises L Imports s = raised (import_modules L (world s))"
| "library_raises L RunHostname s = raised (popen_communicate L (str_split cmd) (world s))"
| "library_raises L MakeCluster s =
     (case IPADDR s of None \<Rightarrow> None
      | Some ip \<Rightarrow> raised (LocalCUDACluster L ip (world s)))"
| "library_raises L MakeClient s =
     (case cluster s of None \<Rightarrow> None
      | Some cl \<Rightarrow> raised (Client L cl (world s)))"
| "library_raises L MakeFrame s =
     (case cupy_random_randint L 0 (int npartitions) nb_size (world s) of
        Inl (e, w) \<Rightarrow> Some e
      | Inr (xs, w) \<Rightarrow> raised (cupy_random_normal L nb_size w))"
| "library_raises L Wait s =
     (case (X_train s, Y_train s) of
        (Some X, Some Y) \<Rightarrow> raised (dask_wait L [X, Y] (world s))
      | _ \<Rightarrow> None)"
| "library_raises L MakeDMatrix s =
     (case (client s, X_train s, Y_train s) of
        (Some c, Some X, Some Y) \<Rightarrow> raised (xgb_DaskDMatrix L c X Y (world s))
      | _ \<Rightarrow> None)"
| "library_raises L Train s =
     (case train_args s of
        Inr (c, p, d, n) \<Rightarrow> raised (xgb_dask_train L c p d n (world s))
      | Inl _ \<Rightarrow> None)"
| "library_raises L SetParam s =
     (case booster_handle s of
        Inr b \<Rightarrow> raised (booster_set_param L b [(''predictor'', ''gpu_predictor'')] (world s))
      | Inl _ \<Rightarrow> None)"
| "library_raises L Method1 s =
     (case (client s, booster s, X_test s) of
        (Some c, Some b, Some X) \<Rightarrow> raised (xgb_dask_predict L c b X (world s))
      | _ \<Rightarrow> None)"
| "library_raises L Method2 s =
     (case (booster_handle s, X_test s) of
        (Inr b, Some X) \<Rightarrow> raised (booster_inplace_predict L b (dd_compute X) (world s))
      | _ \<Rightarrow> None)"
| "library_raises L _ s = None"


section \<open>Small example inputs\<close>

text \<open>A table of two rows and its two partitions.\<close>

definition ex_cdf :: dataframe where
  "ex_cdf = \<lparr>columns = [''x'', ''y''],
             rows = [\<lparr>label = 0, cells = [(''x'', I 3), (''y'', F 0)]\<rparr>,
                     \<lparr>label = 1, cells = [(''x'', I 5), (''y'', F 1)]\<rparr>]\<rparr>"

definition ex_ddf :: dask_frame where
  "ex_ddf = \<lparr>meta = [''x'', ''y''],
             partitions = [ex_cdf\<lparr>rows := [\<lparr>label = 0, cells = [(''x'', I 3), (''y'', F 0)]\<rparr>]\<rparr>,
                           ex_cdf\<lparr>rows := [\<lparr>label = 1, cells = [(''x'', I 5), (''y'', F 1)]\<rparr>]\<rparr>]\<rparr>"


text \<open>A table whose only row lies on the threshold.\<close>

definition ex_half_cdf :: dataframe where
  "ex_half_cdf = \<lparr>columns = [''x'', ''y''],
                  rows = [\<lparr>label = 0, cells = [(''x'', I 3), (''y'', F (1 / 2))]\<rparr>]\<rparr>"

definition ex_half_ddf :: dask_frame where
  "ex_half_ddf = \<lparr>meta = [''x'', ''y''], partitions = [ex_half_cdf]\<rparr>"

text \<open>
  A library in which every call succeeds: the world counts the calls, the random arrays are
  constant, and every prediction is \<open>0\<close>.  Variants of it fail at one call or print no
  address.  The examples never reach the float arithmetic.
\<close>

definition ok_ops :: float_ops where
  "ok_ops =
     \<lparr>sub64 = (\<lambda>a b. 0), square64 = (\<lambda>a. 0), mean64 = (\<lambda>s. None),
      dask_mean64 = (\<lambda>parts. None), sqrt64 = (\<lambda>v. None)\<rparr>"

definition ok_lib :: "nat library" where
  "ok_lib =
     \<lparr>import_modules = (\<lambda>w. Inr ((), Suc w)),
      popen_communicate = (\<lambda>argv w. Inr (''10.33.227.157 172.17.0.1 '', Suc w)),
      LocalCUDACluster = (\<lambda>ip w. Inr (1, Suc w)),
      Client = (\<lambda>c w. Inr (2, Suc w)),
      cupy_random_randint = (\<lambda>lo hi n w. Inr (replicate n lo, Suc w)),
      cupy_random_normal = (\<lambda>n w. Inr (replicate n 0, Suc w)),
      dask_wait = (\<lambda>fs w. Inr ((), Suc w)),
      xgb_DaskDMatrix = (\<lambda>c X Y w. Inr (3, Suc w)),
      xgb_dask_train = (\<lambda>c p d n w. Inr ((4, []), Suc w)),
      booster_set_param = (\<lambda>b kv w. Inr ((), Suc w)),
      xgb_dask_predict = (\<lambda>c b X w. Inr (map (\<lambda>p. map (\<lambda>r. 0) (rows p)) (partitions X), Suc w)),
      booster_inplace_predict = (\<lambda>b df w. Inr (map (\<lambda>r. 0) (rows df), Suc w)),
      arith = ok_ops\<rparr>"

definition cluster_fails_lib :: "nat library" where
  "cluster_fails_lib = ok_lib\<lparr>LocalCUDACluster := (\<lambda>ip w. Inl (LibraryError 1, Suc w))\<rparr>"

definition randint_fails_lib :: "nat library" where
  "randint_fails_lib = ok_lib\<lparr>cupy_random_randint := (\<lambda>lo hi n w. Inl (LibraryError 2, Suc w))\<rparr>"

definition train_fails_lib :: "nat library" where
  "train_fails_lib = ok_lib\<lparr>xgb_dask_train := (\<lambda>c p d n w. Inl (LibraryError 3, Suc w))\<rparr>"

definition blank_hostname_lib :: "nat library" where
  "blank_hostname_lib = ok_lib\<lparr>popen_communicate := (\<lambda>argv w. Inr (''  '', Suc w))\<rparr>"

text \<open>A fresh kernel, and the state in which the cluster constructor starts for these libraries.\<close>

definition fresh :: "nat state" where
  "fresh = init 0 Map.empty"

definition ex_before_cluster :: "nat state" where
  "ex_before_cluster =
     (init 0 Map.empty)
       \<lparr>world := 2, environ := [''NCCL_P2P_DISABLE'' \<mapsto> ''1''],
        output' := Some ''10.33.227.157 172.17.0.1 '', IPADDR := Some ''10.33.227.157''\<rparr>"

section \<open>Basic rules\<close>

lemma bind_py_Inr [simp]: "bind_py (Inr v) f = f v"
  by (simp add: bind_py_def)

lemma bind_py_Inl [simp]: "bind_py (Inl e) f = Inl e"
  by (simp add: bind_py_def)

section \<open>Properties of the address extraction\<close>

lemma split_acc_skip: "split_acc [] s = split_acc [] (dropWhile isspace s)"
  by (induction s) simp_all

lemma split_acc_token:
  "cur \<noteq> [] \<Longrightarrow>
   split_acc cur s =
     (cur @ takeWhile (\<lambda>c. \<not> isspace c) s) # split_acc [] (dropWhile (\<lambda>c. \<not> isspace c) s)"
  by (induction s arbitrary: cur) simp_all

lemma split_acc_all_space: "\<forall>c\<in>set s. isspace c \<Longrightarrow> split_acc [] s = []"
  by (induction s) simp_all

lemma str_split_first:
  assumes "\<not> (\<forall>c\<in>set s. isspace c)"
  shows "str_split s =
           takeWhile (\<lambda>c. \<not> isspace c) (dropWhile isspace s)
             # split_acc [] (dropWhile (\<lambda>c. \<not> isspace c) (dropWhile isspace s))"
proof -
  have ne: "dropWhile isspace s \<noteq> []"
    using assms by (simp add: dropWhile_eq_Nil_conv)
  then obtain d ds where d: "dropWhile isspace s = d # ds"
    by (cases "dropWhile isspace s") auto
  have nd: "\<not> isspace d"
    using hd_dropWhile [OF ne] by (simp add: d)
  have "split_acc [] (d # ds) = split_acc [d] ds"
    using nd by simp
  also have "\<dots> = ([d] @ takeWhile (\<lambda>c. \<not> isspace c) ds)
                     # split_acc [] (dropWhile (\<lambda>c. \<not> isspace c) ds)"
    by (rule split_acc_token) simp
  finally show ?thesis
    unfolding str_split_def by (subst split_acc_skip) (simp add: d nd)
qed

lemma str_split_empty_iff: "str_split s = [] \<longleftrightarrow> (\<forall>c\<in>set s. isspace c)"
proof (cases "\<forall>c\<in>set s. isspace c")
  case True
  then show ?thesis by (simp add: str_split_def split_acc_all_space)
next
  case False
  then show ?thesis using str_split_first [OF False] by simp
qed

lemma cmd_split: "str_split cmd = [''hostname'', ''--all-ip-addresses'']"
  by (simp add: str_split_def cmd_def isspace_def)

section \<open>Properties of the data frames\<close>

lemma mapM_Inr: "(\<And>x. x \<in> set xs \<Longrightarrow> f x = Inr (g x)) \<Longrightarrow> mapM f xs = Inr (map g xs)"
  by (induction xs) simp_all

lemma chunks_Nil [simp]: "chunks k [] = []"
  by (simp add: chunks.simps)

lemma chunks_step: "0 < k \<Longrightarrow> xs \<noteq> [] \<Longrightarrow> chunks k xs = take k xs # chunks k (drop k xs)"
  by (subst chunks.simps) simp

lemma concat_chunks: "0 < k \<Longrightarrow> concat (chunks k xs) = xs"
proof (induction k xs rule: chunks.induct)
  case (1 k xs)
  then show ?case
    by (cases "xs = []") (simp_all add: chunks_step)
qed

lemma ceil_div_step:
  fixes n k :: nat
  assumes "0 < k" and "k < n"
  shows "(n + k - 1) div k = Suc ((n - k + k - 1) div k)"
proof -
  have "n + k - 1 = (n - 1) + k" using assms by arith
  then have "(n + k - 1) div k = Suc ((n - 1) div k)" using assms by (simp only: div_add_self2)
  moreover have "n - k + k - 1 = n - 1" using assms by arith
  ultimately show ?thesis by (simp only:)
qed

lemma length_chunks: "0 < k \<Longrightarrow> length (chunks k xs) = (length xs + k - 1) div k"
proof (induction k xs rule: chunks.induct)
  case (1 k xs)
  show ?case
  proof (cases "xs = []")
    case True
    then show ?thesis using 1(2) by simp
  next
    case False
    then have len: "0 < length xs" by simp
    have ih: "length (chunks k (drop k xs)) = (length (drop k xs) + k - 1) div k"
      using 1 False by simp
    show ?thesis
    proof (cases "length xs \<le> k")
      case True
      have "length xs + k - 1 = (length xs - 1) + k" using len by arith
      moreover have "length xs - 1 < k" using True len by arith
      then have "(length xs - 1) div k = 0" by (rule div_less)
      ultimately have "(length xs + k - 1) div k = 1" using 1(2) by (simp only: div_add_self2)
      then show ?thesis using False 1(2) True by (simp add: chunks_step)
    next
      case gt: False
      then have "(length xs + k - 1) div k = Suc ((length xs - k + k - 1) div k)"
        using 1(2) by (intro ceil_div_step) simp_all
      then show ?thesis using False 1(2) ih by (simp add: chunks_step)
    qed
  qed
qed

lemma make_cdf_ok:
  "length xs = length ys \<Longrightarrow>
   make_cdf xs ys =
     Inr \<lparr>columns = [''x'', ''y''],
          rows = map (\<lambda>i. \<lparr>label = i, cells = [(''x'', I (xs ! i)), (''y'', F (ys ! i))]\<rparr>)
                   [0..<length ys]\<rparr>"
  by (simp add: make_cdf_def DataFrame_def)

lemma make_cdf_error: "length xs \<noteq> length ys \<Longrightarrow> make_cdf xs ys = Inl ValueError"
  by (simp add: make_cdf_def DataFrame_def)


lemma from_cudf_total: "0 < np \<Longrightarrow> \<exists>d. from_cudf df np = Inr d"
  by (simp add: from_cudf_def Let_def)

lemma chunksize_pos:
  fixes n np :: nat
  shows "0 < n \<Longrightarrow> 0 < np \<Longrightarrow> 0 < (n + np - 1) div np"
  by (simp add: div_greater_zero_iff)

lemma from_cudf_rows:
  assumes "from_cudf df np = Inr d"
  shows "rows (dd_compute d) = rows df"
proof -
  have np: "0 < np" using assms by (auto simp: from_cudf_def split: if_splits)
  show ?thesis
  proof (cases "rows df = []")
    case True
    then show ?thesis using assms np by (auto simp: from_cudf_def dd_compute_def)
  next
    case False
    then have "0 < (length (rows df) + np - 1) div np"
      using np by (intro chunksize_pos) simp_all
    then have "concat (chunks ((length (rows df) + np - 1) div np) (rows df)) = rows df"
      by (rule concat_chunks)
    then show ?thesis
      using assms np False
      by (auto simp: from_cudf_def dd_compute_def Let_def comp_def)
  qed
qed

lemma from_cudf_columns:
  assumes "from_cudf df np = Inr d"
  shows "meta d = columns df" and "\<forall>p\<in>set (partitions d). columns p = columns df"
  using assms by (auto simp: from_cudf_def Let_def split: if_splits)

lemma from_cudf_length:
  assumes "from_cudf df np = Inr d" and "rows df \<noteq> []"
  shows "length (partitions d) =
           (length (rows df) + (length (rows df) + np - 1) div np - 1)
             div ((length (rows df) + np - 1) div np)"
proof -
  have np: "0 < np" using assms by (auto simp: from_cudf_def split: if_splits)
  have "0 < (length (rows df) + np - 1) div np"
    using np assms(2) by (intro chunksize_pos) simp_all
  then show ?thesis
    using assms np by (auto simp: from_cudf_def Let_def length_chunks)
qed

lemma dd_query_ok:
  assumes "\<forall>p\<in>set (partitions d). fst q \<in> set (columns p)"
  shows "dd_query d q =
           Inr (d\<lparr>partitions := map (\<lambda>p. p\<lparr>rows := filter (satisfies q) (rows p)\<rparr>) (partitions d)\<rparr>)"
proof -
  have "mapM (\<lambda>p. query p q) (partitions d) =
          Inr (map (\<lambda>p. p\<lparr>rows := filter (satisfies q) (rows p)\<rparr>) (partitions d))"
    using assms by (intro mapM_Inr) (simp add: query_def)
  then show ?thesis by (simp add: dd_query_def)
qed

lemma rows_compute_filtered:
  "rows (dd_compute (d\<lparr>partitions := map (\<lambda>p. p\<lparr>rows := filter P (rows p)\<rparr>) (partitions d)\<rparr>)) =
     filter P (rows (dd_compute d))"
  by (simp add: dd_compute_def filter_concat comp_def)

lemma dd_getitem_cols_ok:
  assumes "\<forall>p\<in>set (partitions d). set cs \<subseteq> set (columns p)"
  shows "dd_getitem_cols d cs =
           Inr \<lparr>meta = cs,
                partitions = map (\<lambda>p. \<lparr>columns = cs,
                    rows = map (\<lambda>r. r\<lparr>cells := List.map_filter
                                     (\<lambda>c. map_option (Pair c) (cell r c)) cs\<rparr>) (rows p)\<rparr>)
                  (partitions d)\<rparr>"
proof -
  have "mapM (\<lambda>p. getitem_cols p cs) (partitions d) =
          Inr (map (\<lambda>p. \<lparr>columns = cs,
                    rows = map (\<lambda>r. r\<lparr>cells := List.map_filter
                                     (\<lambda>c. map_option (Pair c) (cell r c)) cs\<rparr>) (rows p)\<rparr>)
                  (partitions d))"
    using assms by (intro mapM_Inr) (simp add: getitem_cols_def)
  then show ?thesis by (simp add: dd_getitem_cols_def)
qed

lemma columns_difference_xy [simp]: "columns_difference [''x'', ''y''] [''x''] = [''y'']"
  by (simp add: columns_difference_def)


lemma cdf_rows:
  assumes "make_cdf xs ys = Inr tab"
  shows "length xs = length ys"
    and "columns tab = [''x'', ''y'']"
    and "rows tab = map (\<lambda>i. \<lparr>label = i, cells = [(''x'', I (xs ! i)), (''y'', F (ys ! i))]\<rparr>)
                      [0..<length ys]"
proof -
  show len: "length xs = length ys"
    using assms make_cdf_error [of xs ys] by (cases "length xs = length ys") auto
  show "columns tab = [''x'', ''y'']"
    using assms make_cdf_ok [OF len] by auto
  show "rows tab = map (\<lambda>i. \<lparr>label = i, cells = [(''x'', I (xs ! i)), (''y'', F (ys ! i))]\<rparr>)
                      [0..<length ys]"
    using assms make_cdf_ok [OF len] by auto
qed

lemma cdf_row:
  assumes "make_cdf xs ys = Inr tab" and "r \<in> set (rows tab)"
  shows "label r < length ys"
    and "cells r = [(''x'', I (xs ! label r)), (''y'', F (ys ! label r))]"
  using assms(2) unfolding cdf_rows(3) [OF assms(1)] by auto

lemma satisfies_train:
  "cells r = [(''x'', I a), (''y'', F b)] \<Longrightarrow> satisfies train_expr r \<longleftrightarrow> b < 1 / 2"
  by (simp add: satisfies_def train_expr_def cell_def)

lemma satisfies_test:
  "cells r = [(''x'', I a), (''y'', F b)] \<Longrightarrow> satisfies test_expr r \<longleftrightarrow> b > 1 / 2"
  by (simp add: satisfies_def test_expr_def cell_def)

lemma query_cdf:
  assumes "make_cdf xs ys = Inr tab" and "from_cudf tab np = Inr dtab"
  shows "\<exists>sub. dd_query dtab (''y'', op, k) = Inr sub \<and> meta sub = [''x'', ''y'']
           \<and> length (partitions sub) = length (partitions dtab)
           \<and> (\<forall>p\<in>set (partitions sub). columns p = [''x'', ''y''])
           \<and> rows (dd_compute sub) = filter (satisfies (''y'', op, k)) (rows tab)"
proof -
  have cols: "\<forall>p\<in>set (partitions dtab). columns p = [''x'', ''y'']"
    using from_cudf_columns(2) [OF assms(2)] cdf_rows(2) [OF assms(1)] by simp
  then have "\<forall>p\<in>set (partitions dtab). fst (''y'', op, k) \<in> set (columns p)"
    by simp
  from dd_query_ok [OF this] show ?thesis
    using cols from_cudf_columns(1) [OF assms(2)] cdf_rows(2) [OF assms(1)]
      from_cudf_rows [OF assms(2)]
    by (simp add: rows_compute_filtered)
qed


lemma labels_getitem_cols:
  assumes "\<forall>p\<in>set (partitions d). set cs \<subseteq> set (columns p)"
  shows "\<exists>X. dd_getitem_cols d cs = Inr X \<and> meta X = cs
           \<and> length (partitions X) = length (partitions d)
           \<and> (\<forall>p\<in>set (partitions X). columns p = cs)
           \<and> map label (rows (dd_compute X)) = map label (rows (dd_compute d))"
  unfolding dd_getitem_cols_ok [OF assms]
  by (simp add: dd_compute_def map_concat comp_def)

lemma split_xy_cdf:
  assumes "make_cdf xs ys = Inr tab" and "from_cudf tab np = Inr dtab"
  shows "\<exists>sub X Y. split_xy dtab (''y'', op, k) = Inr (sub, X, Y)
           \<and> dd_query dtab (''y'', op, k) = Inr sub
           \<and> meta X = [''y''] \<and> meta Y = [''x'']
           \<and> length (partitions X) = length (partitions dtab)
           \<and> length (partitions Y) = length (partitions dtab)
           \<and> map label (rows (dd_compute X)) = map label (rows (dd_compute sub))
           \<and> map label (rows (dd_compute Y)) = map label (rows (dd_compute sub))"
proof -
  from query_cdf [OF assms, of op k] obtain sub where
    sub: "dd_query dtab (''y'', op, k) = Inr sub" "meta sub = [''x'', ''y'']"
      "length (partitions sub) = length (partitions dtab)"
      "\<forall>p\<in>set (partitions sub). columns p = [''x'', ''y'']"
    by blast
  have "\<forall>p\<in>set (partitions sub). set [''x''] \<subseteq> set (columns p)"
    using sub(4) by simp
  from labels_getitem_cols [OF this] obtain Y where
    Y: "dd_getitem_cols sub [''x''] = Inr Y" "meta Y = [''x'']"
      "length (partitions Y) = length (partitions sub)"
      "map label (rows (dd_compute Y)) = map label (rows (dd_compute sub))"
    by blast
  have "\<forall>p\<in>set (partitions sub). set [''y''] \<subseteq> set (columns p)"
    using sub(4) by simp
  from labels_getitem_cols [OF this] obtain X where
    X: "dd_getitem_cols sub [''y''] = Inr X" "meta X = [''y'']"
      "length (partitions X) = length (partitions sub)"
      "map label (rows (dd_compute X)) = map label (rows (dd_compute sub))"
    by blast
  have "split_xy dtab (''y'', op, k) = Inr (sub, X, Y)"
    by (simp add: split_xy_def sub(1,2) Y(1) X(1))
  then show ?thesis
    using sub X Y by simp
qed


lemma split_cdf:
  assumes "make_cdf xs ys = Inr tab" and "from_cudf tab np = Inr dtab"
  shows "\<exists>tr Xtr Ytr te Xte Yte.
           split_xy dtab train_expr = Inr (tr, Xtr, Ytr) \<and>
           split_xy dtab test_expr = Inr (te, Xte, Yte) \<and>
           query tab train_expr = Inr (dd_compute tr) \<and>
           query tab test_expr = Inr (dd_compute te) \<and>
           length (partitions tr) = length (partitions dtab) \<and>
           length (partitions te) = length (partitions dtab) \<and>
           (\<forall>p\<in>set (partitions tr). columns p = [''x'', ''y'']) \<and>
           (\<forall>p\<in>set (partitions te). columns p = [''x'', ''y''])"
proof -
  note c = cdf_rows(2) [OF assms(1)]
  from split_xy_cdf [OF assms, of Lt "1 / 2"] query_cdf [OF assms, of Lt "1 / 2"]
  obtain tr Xtr Ytr where
    tr: "split_xy dtab train_expr = Inr (tr, Xtr, Ytr)"
      "meta tr = [''x'', ''y'']"
      "length (partitions tr) = length (partitions dtab)"
      "\<forall>p\<in>set (partitions tr). columns p = [''x'', ''y'']"
      "rows (dd_compute tr) = filter (satisfies train_expr) (rows tab)"
    unfolding train_expr_def by auto
  from split_xy_cdf [OF assms, of Gt "1 / 2"] query_cdf [OF assms, of Gt "1 / 2"]
  obtain te Xte Yte where
    te: "split_xy dtab test_expr = Inr (te, Xte, Yte)"
      "meta te = [''x'', ''y'']"
      "length (partitions te) = length (partitions dtab)"
      "\<forall>p\<in>set (partitions te). columns p = [''x'', ''y'']"
      "rows (dd_compute te) = filter (satisfies test_expr) (rows tab)"
    unfolding test_expr_def by auto
  have "query tab train_expr = Inr (dd_compute tr)"
    using tr(2,5) c by (simp add: query_def train_expr_def dd_compute_def)
  moreover have "query tab test_expr = Inr (dd_compute te)"
    using te(2,5) c by (simp add: query_def test_expr_def dd_compute_def)
  ultimately show ?thesis
    using tr(1,3,4) te(1,3,4) by blast
qed

lemma query_rows: "query tab q = Inr sub \<Longrightarrow> rows sub = filter (satisfies q) (rows tab)"
  by (auto simp: query_def split: if_splits)

lemma distinct_concat_disjoint:
  "distinct (concat xss) \<Longrightarrow> i < j \<Longrightarrow> j < length xss \<Longrightarrow> set (xss ! i) \<inter> set (xss ! j) = {}"
proof (induction xss arbitrary: i j)
  case Nil
  then show ?case by simp
next
  case (Cons xs xss)
  show ?case
  proof (cases i)
    case 0
    then obtain j' where j: "j = Suc j'" using Cons.prems(2) by (cases j) auto
    then have "xss ! j' \<in> set xss" using Cons.prems(3) by simp
    then show ?thesis using Cons.prems(1) 0 j by auto
  next
    case (Suc i')
    then obtain j' where j: "j = Suc j'" using Cons.prems(2) by (cases j) auto
    show ?thesis
      using Cons.IH [of i' j'] Cons.prems Suc j by simp
  qed
qed

lemma cdf_labels:
  assumes "make_cdf xs ys = Inr tab"
  shows "map label (rows tab) = [0..<length ys]"
  unfolding cdf_rows(3) [OF assms] by (simp add: comp_def)

lemma from_cudf_disjoint:
  assumes "make_cdf xs ys = Inr tab" and "from_cudf tab np = Inr dtab"
    and "i < j" and "j < length (partitions dtab)"
  shows "label ` set (rows (partitions dtab ! i)) \<inter> label ` set (rows (partitions dtab ! j)) = {}"
proof -
  have "concat (map (\<lambda>p. map label (rows p)) (partitions dtab)) = map label (rows (dd_compute dtab))"
    by (simp add: dd_compute_def map_concat comp_def)
  also have "\<dots> = [0..<length ys]"
    by (simp add: from_cudf_rows [OF assms(2)] cdf_labels [OF assms(1)])
  finally have "distinct (concat (map (\<lambda>p. map label (rows p)) (partitions dtab)))"
    by simp
  from distinct_concat_disjoint [OF this, of i j] show ?thesis
    using assms(3,4) by simp
qed

lemma from_cudf_compute:
  assumes "from_cudf tab np = Inr dtab"
  shows "dd_compute dtab = tab"
  using from_cudf_rows [OF assms] from_cudf_columns(1) [OF assms]
  by (simp add: dd_compute_def)

lemma notebook_partition_count:
  assumes "make_cdf xs ys = Inr tab" and "from_cudf tab npartitions = Inr dtab"
    and "length ys = nb_size"
  shows "length (partitions dtab) = 8"
proof -
  have len: "length (rows tab) = 1000000"
    using assms(3) by (simp add: cdf_rows(3) [OF assms(1)] nb_size_def)
  then have "rows tab \<noteq> []" by auto
  from from_cudf_length [OF assms(2) this] show ?thesis
    by (simp add: len npartitions_def)
qed


section \<open>Properties of running the notebook\<close>

lemma try_py_Inr [simp]: "try_py s (Inr v) f = f v"
  by (simp add: try_py_def)

lemma try_py_Inl [simp]: "try_py s (Inl e) f = Inl (e, s)"
  by (simp add: try_py_def)

lemma run_body_Cons_Inl: "exec L c s = Inl es \<Longrightarrow> run_body L (c # cs) s = ([(c, s)], Inl es)"
  by simp

lemma run_body_Cons_Inr:
  "exec L c s = Inr s' \<Longrightarrow>
   run_body L (c # cs) s = ((c, s) # fst (run_body L cs s'), snd (run_body L cs s'))"
  by (simp add: case_prod_unfold)

declare run_body.simps(2) [simp del]

lemma run_body_append:
  "run_body L (cs @ ds) s =
     (case run_body L cs s of
        (tr, Inl es) \<Rightarrow> (tr, Inl es)
      | (tr, Inr s') \<Rightarrow> (case run_body L ds s' of (tr', r) \<Rightarrow> (tr @ tr', r)))"
proof (induction cs arbitrary: s)
  case Nil
  then show ?case by (simp add: case_prod_unfold)
next
  case (Cons c cs)
  show ?case
  proof (cases "exec L c s")
    case (Inl es)
    then show ?thesis by (simp add: run_body_Cons_Inl)
  next
    case (Inr s')
    then show ?thesis
      by (simp add: run_body_Cons_Inr Cons.IH case_prod_unfold split: sum.splits)
  qed
qed

lemma run_body_ok_trace:
  "snd (run_body L cs s) = Inr s' \<Longrightarrow> map fst (fst (run_body L cs s)) = cs"
proof (induction cs arbitrary: s)
  case Nil
  then show ?case by simp
next
  case (Cons c cs)
  then show ?case
    by (cases "exec L c s") (simp_all add: run_body_Cons_Inr run_body_Cons_Inl)
qed

lemma run_body_trace_entry:
  "(c, s') \<in> set (fst (run_body L cs s)) \<Longrightarrow>
   \<exists>k<length cs. cs ! k = c \<and> snd (run_body L (take k cs) s) = Inr s'"
proof (induction cs arbitrary: s)
  case Nil
  then show ?case by simp
next
  case (Cons d ds)
  show ?case
  proof (cases "(c, s') = (d, s)")
    case True
    then show ?thesis by (intro exI [of _ 0]) simp
  next
    case False
    then obtain s1 where s1: "exec L d s = Inr s1" "(c, s') \<in> set (fst (run_body L ds s1))"
      using Cons.prems by (cases "exec L d s") (auto simp: run_body_Cons_Inr run_body_Cons_Inl)
    from Cons.IH [OF s1(2)] obtain k where
      k: "k < length ds" "ds ! k = c" "snd (run_body L (take k ds) s1) = Inr s'"
      by blast
    show ?thesis
      using k s1(1) by (intro exI [of _ "Suc k"]) (simp add: run_body_Cons_Inr)
  qed
qed

lemma run_body_trace_in: "(c, s') \<in> set (fst (run_body L cs s)) \<Longrightarrow> c \<in> set cs"
  using run_body_trace_entry [of c s' L cs s] by auto

lemma run_body_split:
  assumes "k < length cs" and "snd (run_body L (take k cs) s) = Inr sk"
  shows "run_body L cs s =
           (fst (run_body L (take k cs) s) @ fst (run_body L (drop k cs) sk),
            snd (run_body L (drop k cs) sk))"
proof -
  obtain tr where tr: "run_body L (take k cs) s = (tr, Inr sk)"
    using assms(2) by (cases "run_body L (take k cs) s") auto
  have "run_body L (take k cs @ drop k cs) s =
          (tr @ fst (run_body L (drop k cs) sk), snd (run_body L (drop k cs) sk))"
    unfolding run_body_append by (simp add: tr case_prod_unfold)
  then show ?thesis by (simp add: tr)
qed

lemma run_body_stops:
  assumes "k < length cs" and "snd (run_body L (take k cs) s) = Inr sk"
    and "exec L (cs ! k) sk = Inl es"
  shows "run_body L cs s = (fst (run_body L (take k cs) s) @ [(cs ! k, sk)], Inl es)"
proof -
  have "drop k cs = cs ! k # drop (Suc k) cs"
    using assms(1) by (simp add: Cons_nth_drop_Suc)
  then have "run_body L (drop k cs) sk = ([(cs ! k, sk)], Inl es)"
    using assms(3) by (simp add: run_body_Cons_Inl)
  then show ?thesis
    using run_body_split [OF assms(1,2)] by simp
qed

lemma run_body_establishes:
  assumes step: "\<And>c s s'. exec L c s = Inr s' \<Longrightarrow> c = a \<or> Q s \<Longrightarrow> Q s'"
    and "snd (run_body L cs s) = Inr s'" and "a \<in> set cs \<or> Q s"
  shows "Q s'"
  using assms(2,3)
proof (induction cs arbitrary: s)
  case Nil
  then show ?case by simp
next
  case (Cons c cs)
  from Cons.prems(1) obtain s1 where s1: "exec L c s = Inr s1" "snd (run_body L cs s1) = Inr s'"
    by (cases "exec L c s") (auto simp: run_body_Cons_Inl run_body_Cons_Inr)
  show ?case
  proof (cases "c = a \<or> Q s")
    case True
    then have "Q s1" using step [OF s1(1)] by blast
    then show ?thesis using Cons.IH [OF s1(2)] by blast
  next
    case False
    then have "a \<in> set cs" using Cons.prems(2) by auto
    then show ?thesis using Cons.IH [OF s1(2)] by blast
  qed
qed

lemma run_body_append_Inr:
  assumes "snd (run_body L (as @ bs) s) = Inr sf"
  shows "\<exists>sm. snd (run_body L as s) = Inr sm \<and> snd (run_body L bs sm) = Inr sf"
  using assms unfolding run_body_append
  by (cases "run_body L as s") (auto split: sum.splits prod.splits)

lemma run_body_append_snd:
  "snd (run_body L as s) = Inr sm \<Longrightarrow> snd (run_body L (as @ bs) s) = snd (run_body L bs sm)"
  unfolding run_body_append by (cases "run_body L as s") (auto split: prod.splits)

lemma count_body:
  "length (filter (\<lambda>(c, s'). c = a) (fst (run_body L cs s))) \<le> length (filter (\<lambda>c. c = a) cs)"
proof (induction cs arbitrary: s)
  case Nil
  then show ?case by simp
next
  case (Cons c cs)
  show ?case
  proof (cases "exec L c s")
    case (Inl es)
    then show ?thesis by (simp add: run_body_Cons_Inl)
  next
    case (Inr s')
    then show ?thesis using Cons.IH [of s'] by (simp add: run_body_Cons_Inr)
  qed
qed

subsection \<open>Cells\<close>

lemma trace_run_cell: "fst (run_cell L d s) = fst (run_body L (body d) s)"
  by (cases d) (auto split: prod.splits sum.splits)

lemma run_Cons_Inl:
  "snd (run_cell L c s) = Inl e \<Longrightarrow> run L (c # cs) s = (fst (run_cell L c s), Inl e)"
  by (cases "run_cell L c s") simp

lemma run_Cons_Inr:
  "snd (run_cell L c s) = Inr s' \<Longrightarrow>
   run L (c # cs) s = (fst (run_cell L c s) @ fst (run L cs s'), snd (run L cs s'))"
  by (cases "run_cell L c s") (simp add: case_prod_unfold)

declare run.simps(2) [simp del]

lemma run_append:
  "run L (cs @ ds) s =
     (case run L cs s of
        (tr, Inl e) \<Rightarrow> (tr, Inl e)
      | (tr, Inr s') \<Rightarrow> (case run L ds s' of (tr', r) \<Rightarrow> (tr @ tr', r)))"
proof (induction cs arbitrary: s)
  case Nil
  then show ?case by (simp add: case_prod_unfold)
next
  case (Cons c cs)
  show ?case
  proof (cases "snd (run_cell L c s)")
    case (Inl e)
    then show ?thesis by (simp add: run_Cons_Inl)
  next
    case (Inr s')
    then show ?thesis
      by (simp add: run_Cons_Inr Cons.IH case_prod_unfold split: sum.splits)
  qed
qed

lemma run_split:
  assumes "i < length ces" and "snd (run L (take i ces) s) = Inr si"
  shows "run L ces s =
           (fst (run L (take i ces) s) @ fst (run L (drop i ces) si),
            snd (run L (drop i ces) si))"
proof -
  obtain tr where tr: "run L (take i ces) s = (tr, Inr si)"
    using assms(2) by (cases "run L (take i ces) s") auto
  have "run L (take i ces @ drop i ces) s =
          (tr @ fst (run L (drop i ces) si), snd (run L (drop i ces) si))"
    unfolding run_append by (simp add: tr case_prod_unfold)
  then show ?thesis by (simp add: tr)
qed

lemma run_trace_entry:
  "(c, s') \<in> set (fst (run L ces s)) \<Longrightarrow>
   \<exists>i<length ces. \<exists>si. snd (run L (take i ces) s) = Inr si \<and>
      (c, s') \<in> set (fst (run_body L (body (ces ! i)) si))"
proof (induction ces arbitrary: s)
  case Nil
  then show ?case by simp
next
  case (Cons d ds)
  show ?case
  proof (cases "(c, s') \<in> set (fst (run_body L (body d) s))")
    case True
    then show ?thesis by (intro exI [of _ 0]) simp
  next
    case False
    then obtain s1 where s1: "snd (run_cell L d s) = Inr s1" "(c, s') \<in> set (fst (run L ds s1))"
      using Cons.prems
      by (cases "snd (run_cell L d s)") (auto simp: run_Cons_Inr run_Cons_Inl trace_run_cell)
    from Cons.IH [OF s1(2)] obtain i si where
      i: "i < length ds" "snd (run L (take i ds) s1) = Inr si"
        "(c, s') \<in> set (fst (run_body L (body (ds ! i)) si))"
      by blast
    show ?thesis
      using i s1(1) by (intro exI [of _ "Suc i"]) (simp add: run_Cons_Inr)
  qed
qed

lemma count_run:
  "length (filter (\<lambda>(c, s'). c = a) (fst (run L ces s))) \<le>
     length (filter (\<lambda>c. c = a) (concat (map body ces)))"
proof (induction ces arbitrary: s)
  case Nil
  then show ?case by simp
next
  case (Cons d ds)
  note b = count_body [of a L "body d" s]
  show ?case
  proof (cases "snd (run_cell L d s)")
    case (Inl e)
    then show ?thesis using b by (simp add: run_Cons_Inl trace_run_cell)
  next
    case (Inr s')
    then show ?thesis using b Cons.IH [of s'] by (simp add: run_Cons_Inr trace_run_cell)
  qed
qed

lemma run_plain:
  assumes "\<forall>d\<in>set ces. \<exists>cs. d = Plain cs" and "snd (run L ces s) = Inr s'"
  shows "snd (run_body L (concat (map body ces)) s) = Inr s'"
  using assms
proof (induction ces arbitrary: s)
  case Nil
  then show ?case by simp
next
  case (Cons d ds)
  then obtain cs where d: "d = Plain cs" by auto
  from Cons.prems(2) obtain s1 where
    s1: "snd (run_cell L d s) = Inr s1" "snd (run L ds s1) = Inr s'"
    by (cases "snd (run_cell L d s)") (auto simp: run_Cons_Inr run_Cons_Inl)
  have "snd (run_body L cs s) = Inr s1"
    using s1(1) unfolding d by (auto split: prod.splits sum.splits)
  moreover have "snd (run_body L (concat (map body ds)) s1) = Inr s'"
    using Cons.IH [OF _ s1(2)] Cons.prems(1) by simp
  ultimately show ?case
    by (simp add: d run_body_append_snd)
qed

subsection \<open>Statements\<close>

lemma exec_frame:
  assumes "exec L c s = Inr s'"
  shows "(c \<noteq> EnvMagic \<longrightarrow> environ s' = environ s)"
    and "(c \<noteq> MakeClient \<longrightarrow> client s' = client s)"
    and "(c \<noteq> MakeDMatrix \<longrightarrow> dtrain s' = dtrain s)"
    and "(c \<noteq> AssignParams \<longrightarrow> params s' = params s)"
    and "(c \<noteq> Train \<longrightarrow> trained_model s' = trained_model s)"
    and "(c \<noteq> GetBooster \<longrightarrow> booster s' = booster s)"
    and "(c \<noteq> GetHistory \<longrightarrow> history s' = history s)"
  using assms
  by (cases c; auto simp: call_def try_py_def split: sum.splits prod.splits)+

lemma exec_error_state:
  assumes "exec L c s = Inl (e, s')"
  shows "s' = s\<lparr>world := world s'\<rparr>"
  using assms
  by (cases c) (auto simp: call_def try_py_def split: sum.splits prod.splits)

lemma exec_library_raises:
  assumes "library_raises L c s = Some e"
  shows "\<exists>s'. exec L c s = Inl (e, s')"
  using assms
  by (cases c)
    (auto simp: call_def try_py_def var_def raised_def split: sum.splits prod.splits option.splits)

subsection \<open>The cells of the notebook\<close>

lemmas eval_defs = notebook_def run.simps run_cell.simps run_body.simps call_def try_py_def
  bind_py_def var_def IPADDR_of_def getitem0_def str_split_def isspace_def cmd_def init_def
  ok_lib_def

lemma distinct_statements: "distinct (concat (map body notebook))"
  by (simp add: notebook_def)

lemma cell_unique:
  assumes "i < length notebook" and "j < length notebook"
    and "c \<in> set (body (notebook ! i))" and "c \<in> set (body (notebook ! j))"
  shows "i = j"
proof (rule ccontr)
  assume ne: "i \<noteq> j"
  have d: "distinct (concat (map body notebook))" by (rule distinct_statements)
  have "set (map body notebook ! i) \<inter> set (map body notebook ! j) = {}"
  proof (cases "i < j")
    case True
    then show ?thesis using distinct_concat_disjoint [OF d, of i j] assms(2) by simp
  next
    case False
    then have "j < i" using ne by simp
    then show ?thesis using distinct_concat_disjoint [OF d, of j i] assms(1) by auto
  qed
  then show False using assms by auto
qed

lemma notebook_entry:
  assumes "(c, s) \<in> set (fst (run L notebook s0))"
    and "i < length notebook" and "c \<in> set (body (notebook ! i))"
  shows "\<exists>si. snd (run L (take i notebook) s0) = Inr si \<and>
           (c, s) \<in> set (fst (run_body L (body (notebook ! i)) si))"
proof -
  from run_trace_entry [OF assms(1)] obtain j sj where
    j: "j < length notebook" "snd (run L (take j notebook) s0) = Inr sj"
      "(c, s) \<in> set (fst (run_body L (body (notebook ! j)) sj))"
    by blast
  have "c \<in> set (body (notebook ! j))" using j(3) by (rule run_body_trace_in)
  then have "i = j" using cell_unique [OF assms(2) j(1) assms(3)] by simp
  then show ?thesis using j by blast
qed

lemma run_trace_in: "(c, s') \<in> set (fst (run L ces s)) \<Longrightarrow> c \<in> set (concat (map body ces))"
proof -
  assume "(c, s') \<in> set (fst (run L ces s))"
  from run_trace_entry [OF this] obtain i si where
    "i < length ces" "(c, s') \<in> set (fst (run_body L (body (ces ! i)) si))"
    by blast
  then show ?thesis using run_body_trace_in [of c s' L "body (ces ! i)" si] by auto
qed

lemma show_traceback_fields [simp]:
  "environ (show_traceback e s) = environ s"
  "world (show_traceback e s) = world s"
  "trained_model (show_traceback e s) = trained_model s"
  "booster (show_traceback e s) = booster s"
  "history (show_traceback e s) = history s"
  "client (show_traceback e s) = client s"
  "X_test (show_traceback e s) = X_test s"
  "Y_test (show_traceback e s) = Y_test s"
  "shown (show_traceback e s) = shown s @ [e]"
  by (simp_all add: show_traceback_def)

lemma run_body_env:
  "environ s V = Some v \<Longrightarrow> EnvMagic \<notin> set cs \<Longrightarrow>
   (\<forall>(c, s')\<in>set (fst (run_body L cs s)). environ s' V = Some v) \<and>
   (case snd (run_body L cs s) of
      Inl (e, s') \<Rightarrow> environ s' V = Some v
    | Inr s' \<Rightarrow> environ s' V = Some v)"
proof (induction cs arbitrary: s)
  case Nil
  then show ?case by simp
next
  case (Cons c cs)
  show ?case
  proof (cases "exec L c s")
    case (Inl es)
    obtain e s' where es: "es = (e, s')" by (cases es)
    have "environ s' = environ s"
      using exec_error_state [OF Inl [unfolded es]] by (metis state.select_convs(2) state.surjective state.update_convs(1))
    then show ?thesis using Cons.prems(1) Inl es by (simp add: run_body_Cons_Inl)
  next
    case (Inr s1)
    have "c \<noteq> EnvMagic" using Cons.prems(2) by auto
    then have "environ s1 V = Some v"
      using exec_frame(1) [OF Inr] Cons.prems(1) by simp
    from Cons.IH [OF this] Cons.prems show ?thesis
      by (simp add: run_body_Cons_Inr [OF Inr])
  qed
qed

lemma run_env:
  "environ s V = Some v \<Longrightarrow> EnvMagic \<notin> set (concat (map body ces)) \<Longrightarrow>
   \<forall>(c, s')\<in>set (fst (run L ces s)). environ s' V = Some v"
proof (induction ces arbitrary: s)
  case Nil
  then show ?case by simp
next
  case (Cons d ds)
  have no: "EnvMagic \<notin> set (body d)" "EnvMagic \<notin> set (concat (map body ds))"
    using Cons.prems(2) by auto
  note b = run_body_env [OF Cons.prems(1) no(1), of L]
  have tr: "\<forall>(c, s')\<in>set (fst (run_cell L d s)). environ s' V = Some v"
    using b by (simp add: trace_run_cell)
  show ?case
  proof (cases "snd (run_cell L d s)")
    case (Inl e)
    then show ?thesis using tr by (simp add: run_Cons_Inl)
  next
    case (Inr s1)
    have "environ s1 V = Some v"
      using b Inr by (cases d) (auto split: prod.splits sum.splits)
    from Cons.IH [OF this no(2)] tr show ?thesis
      by (auto simp: run_Cons_Inr [OF Inr])
  qed
qed


subsection \<open>The training cell\<close>

lemma run_body_preserves:
  "(\<forall>c\<in>set cs. \<forall>s s'. exec L c s = Inr s' \<longrightarrow> Q s \<longrightarrow> Q s') \<Longrightarrow>
   snd (run_body L cs s) = Inr s' \<Longrightarrow> Q s \<Longrightarrow> Q s'"
proof (induction cs arbitrary: s)
  case Nil
  then show ?case by simp
next
  case (Cons c cs)
  from Cons.prems(2) obtain s1 where s1: "exec L c s = Inr s1" "snd (run_body L cs s1) = Inr s'"
    by (cases "exec L c s") (auto simp: run_body_Cons_Inl run_body_Cons_Inr)
  have "Q s1" using Cons.prems(1,3) s1(1) by simp
  moreover have "\<forall>c\<in>set cs. \<forall>s s'. exec L c s = Inr s' \<longrightarrow> Q s \<longrightarrow> Q s'"
    using Cons.prems(1) by simp
  ultimately show ?case using Cons.IH [OF _ s1(2)] by blast
qed

lemma client_bound:
  "exec L c s = Inr s' \<Longrightarrow> c = MakeClient \<or> client s \<noteq> None \<Longrightarrow> client s' \<noteq> None"
  using exec_frame(2) [of L c s s']
  by (cases "c = MakeClient") (auto simp: call_def try_py_def split: sum.splits prod.splits)

lemma dtrain_bound:
  "exec L c s = Inr s' \<Longrightarrow> c = MakeDMatrix \<or> dtrain s \<noteq> None \<Longrightarrow> dtrain s' \<noteq> None"
  using exec_frame(3) [of L c s s']
  by (cases "c = MakeDMatrix") (auto simp: call_def try_py_def split: sum.splits prod.splits)

lemma first_cells:
  "take 5 notebook =
     [Plain [EnvMagic],
      Plain [Imports, RunHostname, AssignIPADDR, MakeCluster, MakeClient],
      Plain [MakeFrame, FromCudf, SplitTrain, SplitTest],
      Plain [Version],
      Plain [Wait, MakeDMatrix]]"
  by (simp add: notebook_def)

lemma first_cells_body:
  assumes "snd (run L (take 5 notebook) s0) = Inr s5"
  shows "snd (run_body L
           [EnvMagic, Imports, RunHostname, AssignIPADDR, MakeCluster, MakeClient, MakeFrame,
            FromCudf, SplitTrain, SplitTest, Version, Wait, MakeDMatrix] s0) = Inr s5"
  using run_plain [OF _ assms] by (simp add: first_cells)

lemma train_starts:
  assumes "(Train, s) \<in> set (fst (run L notebook s0))"
  shows "\<exists>s5. snd (run L (take 5 notebook) s0) = Inr s5 \<and> s = s5\<lparr>params := Some notebook_params\<rparr>"
proof -
  have "\<exists>si. snd (run L (take 5 notebook) s0) = Inr si \<and>
          (Train, s) \<in> set (fst (run_body L (body (notebook ! 5)) si))"
    by (rule notebook_entry [OF assms]) (simp_all add: notebook_def)
  then obtain s5 where
    s5: "snd (run L (take 5 notebook) s0) = Inr s5"
      "(Train, s) \<in> set (fst (run_body L [AssignParams, Train] s5))"
    by (auto simp: notebook_def)
  have e: "exec L AssignParams s5 = Inr (s5\<lparr>params := Some notebook_params\<rparr>)"
    by simp
  have "s = s5\<lparr>params := Some notebook_params\<rparr>"
    using s5(2)
    by (cases "exec L Train (s5\<lparr>params := Some notebook_params\<rparr>)")
      (auto simp: run_body_Cons_Inr [OF e] run_body_Cons_Inl run_body_Cons_Inr)
  then show ?thesis using s5(1) by blast
qed

lemma before_train:
  assumes "(Train, s) \<in> set (fst (run L notebook s0))"
  shows "\<exists>cl d. train_args s = Inr (cl, notebook_params, d, 100)"
proof -
  from train_starts [OF assms] obtain s5 where
    s5: "snd (run L (take 5 notebook) s0) = Inr s5" "s = s5\<lparr>params := Some notebook_params\<rparr>"
    by blast
  note b = first_cells_body [OF s5(1)]
  have "client s5 \<noteq> None"
    by (rule run_body_establishes [where a = MakeClient and Q = "\<lambda>s. client s \<noteq> None",
          OF client_bound b]) simp_all
  moreover have "dtrain s5 \<noteq> None"
    by (rule run_body_establishes [where a = MakeDMatrix and Q = "\<lambda>s. dtrain s \<noteq> None",
          OF dtrain_bound b]) simp_all
  ultimately show ?thesis
    by (auto simp: s5(2) train_args_def var_def getitem_dict_def notebook_params_def)
qed

lemma exec_Train_model:
  "exec L Train s = Inr s' \<Longrightarrow>
   \<exists>b h. trained_model s' = Some [(''booster'', Booster b), (''history'', History h)]"
  by (auto simp: call_def try_py_def split: sum.splits prod.splits)

lemma before_set_param:
  assumes "(SetParam, t) \<in> set (fst (run L notebook s0))"
    and "trained_model s0 = None \<or>
         (\<exists>s s'. (Train, s) \<in> set (fst (run L notebook s0)) \<and> exec L Train s = Inr s')"
  shows "\<exists>b h. trained_model t = Some [(''booster'', Booster b), (''history'', History h)] \<and>
           booster t = Some (Booster b) \<and> history t = Some (History h)"
proof -
  have "\<exists>si. snd (run L (take 6 notebook) s0) = Inr si \<and>
          (SetParam, t) \<in> set (fst (run_body L (body (notebook ! 6)) si))"
    by (rule notebook_entry [OF assms(1)]) (simp_all add: notebook_def)
  then obtain s6 where
    s6: "snd (run L (take 6 notebook) s0) = Inr s6"
      "(SetParam, t) \<in> set (fst (run_body L [GetBooster, GetHistory, SetParam] s6))"
    by (auto simp: notebook_def)
  from run_body_trace_entry [OF s6(2)] obtain k where
    k: "k < length [GetBooster, GetHistory, SetParam]"
      "[GetBooster, GetHistory, SetParam] ! k = SetParam"
      "snd (run_body L (take k [GetBooster, GetHistory, SetParam]) s6) = Inr t"
    by blast
  have "k = Suc (Suc 0)"
    using k(1,2) by (auto simp: less_Suc_eq)
  then have t: "snd (run_body L [GetBooster, GetHistory] s6) = Inr t"
    using k(3) by simp
  have n6: "take 6 notebook = take 5 notebook @ [Timed [AssignParams, Train]]"
    by (simp add: notebook_def)
  obtain s5 where
    s5: "snd (run L (take 5 notebook) s0) = Inr s5"
      "snd (run L [Timed [AssignParams, Train]] s5) = Inr s6"
    using s6(1) unfolding n6 run_append
    by (cases "run L (take 5 notebook) s0") (auto split: sum.splits prod.splits)
  let ?p = "s5\<lparr>params := Some notebook_params\<rparr>"
  have e: "exec L AssignParams s5 = Inr ?p" by simp
  have keep: "trained_model s5 = trained_model s0"
  proof (rule run_body_preserves [where Q = "\<lambda>s. trained_model s = trained_model s0",
        OF _ first_cells_body [OF s5(1)]])
    show "\<forall>c\<in>set [EnvMagic, Imports, RunHostname, AssignIPADDR, MakeCluster, MakeClient,
        MakeFrame, FromCudf, SplitTrain, SplitTest, Version, Wait, MakeDMatrix].
        \<forall>s s'. exec L c s = Inr s' \<longrightarrow> trained_model s = trained_model s0 \<longrightarrow>
          trained_model s' = trained_model s0"
    proof (intro ballI allI impI)
      fix c s s'
      assume c: "c \<in> set [EnvMagic, Imports, RunHostname, AssignIPADDR, MakeCluster, MakeClient,
          MakeFrame, FromCudf, SplitTrain, SplitTest, Version, Wait, MakeDMatrix]"
        and e: "exec L c s = Inr s'" and q: "trained_model s = trained_model s0"
      have "c \<noteq> Train" using c by auto
      then show "trained_model s' = trained_model s0"
        using exec_frame(5) [OF e] q by simp
    qed
  qed simp
  have m: "\<exists>b h. trained_model s6 = Some [(''booster'', Booster b), (''history'', History h)]"
  proof (cases "exec L Train ?p")
    case (Inr s')
    then have "s6 = s'"
      using s5(2) by (simp add: run.simps run_body_Cons_Inr [OF e] run_body_Cons_Inr [OF Inr])
    then show ?thesis using exec_Train_model [OF Inr] by simp
  next
    case (Inl es)
    obtain e' s' where es: "es = (e', s')" by (cases es)
    have s6': "s6 = show_traceback e' s'"
      using s5(2) Inl es
      by (simp add: run.simps run_body_Cons_Inr [OF e] run_body_Cons_Inl)
    have "trained_model s' = trained_model ?p"
      using exec_error_state [OF Inl [unfolded es]]
      by (metis state.select_convs(15) state.surjective state.update_convs(1))
    then have tm: "trained_model s6 = trained_model s0"
      using keep by (simp add: s6')
    from assms(2) show ?thesis
    proof
      assume "trained_model s0 = None"
      then have "exec L GetBooster s6 = Inl (NameError, s6)"
        using tm by (simp add: var_def)
      then have "snd (run_body L [GetBooster, GetHistory] s6) = Inl (NameError, s6)"
        by (simp add: run_body_Cons_Inl)
      then show ?thesis using t by simp
    next
      assume "\<exists>s s'. (Train, s) \<in> set (fst (run L notebook s0)) \<and> exec L Train s = Inr s'"
      then obtain s s'' where
        tr: "(Train, s) \<in> set (fst (run L notebook s0))" "exec L Train s = Inr s''"
        by blast
      from train_starts [OF tr(1)] s5(1) have "s = ?p" by auto
      then show ?thesis using tr(2) Inl by simp
    qed
  qed
  then obtain b h where
    m: "trained_model s6 = Some [(''booster'', Booster b), (''history'', History h)]"
    by blast
  let ?s1 = "s6\<lparr>booster := Some (Booster b)\<rparr>"
  have e1: "exec L GetBooster s6 = Inr ?s1"
    by (simp add: m var_def getitem_dict_def)
  have e2: "exec L GetHistory ?s1 = Inr (?s1\<lparr>history := Some (History h)\<rparr>)"
    by (simp add: m var_def getitem_dict_def)
  have "snd (run_body L [GetBooster, GetHistory] s6) = Inr (?s1\<lparr>history := Some (History h)\<rparr>)"
    by (simp add: run_body_Cons_Inr [OF e1] run_body_Cons_Inr [OF e2])
  then have "t = ?s1\<lparr>history := Some (History h)\<rparr>"
    using t by simp
  then show ?thesis using m by simp
qed

lemma started_at_most_once:
  "length (filter (\<lambda>(c, s'). c = Train) (fst (run L notebook s))) \<le> 1"
  using count_run [of Train L notebook s] by (simp add: notebook_def)

subsection \<open>A run of the example libraries up to the training cell\<close>

lemma run_cell_plain_ok:
  "snd (run_body L cs s) = Inr s' \<Longrightarrow> snd (run_cell L (Plain cs) s) = Inr s'"
  by (cases "run_body L cs s") auto

lemma run_plain_trace:
  assumes "\<forall>d\<in>set ces. \<exists>cs. d = Plain cs" and "snd (run L ces s) = Inr s'"
  shows "map fst (fst (run L ces s)) = concat (map body ces)"
  using assms
proof (induction ces arbitrary: s)
  case Nil
  then show ?case by simp
next
  case (Cons d ds)
  then obtain cs where d: "d = Plain cs" by auto
  from Cons.prems(2) obtain s1 where
    s1: "snd (run_cell L d s) = Inr s1" "snd (run L ds s1) = Inr s'"
    by (cases "snd (run_cell L d s)") (auto simp: run_Cons_Inr run_Cons_Inl)
  have "snd (run_body L cs s) = Inr s1"
    using s1(1) unfolding d by (auto split: prod.splits sum.splits)
  then have "map fst (fst (run_body L cs s)) = cs"
    by (rule run_body_ok_trace)
  moreover have "map fst (fst (run L ds s1)) = concat (map body ds)"
    using Cons.IH [OF _ s1(2)] Cons.prems(1) by simp
  moreover have "fst (run L (d # ds) s) = fst (run_body L (body d) s) @ fst (run L ds s1)"
    by (simp add: run_Cons_Inr [OF s1(1)] trace_run_cell)
  ultimately show ?case
    by (simp add: d)
qed

lemma ok_first_cells_from:
  fixes f :: "handle \<Rightarrow> pydict \<Rightarrow> handle \<Rightarrow> int \<Rightarrow> nat \<Rightarrow> error \<times> nat + (handle \<times> history) \<times> nat"
    and tm :: "(string \<times> obj) list option"
  defines "L \<equiv> ok_lib\<lparr>xgb_dask_train := f\<rparr>"
    and "s0 \<equiv> fresh\<lparr>trained_model := tm\<rparr>"
  shows "\<exists>s5. snd (run L (take 5 notebook) s0) = Inr s5 \<and>
           map fst (fst (run L (take 5 notebook) s0)) =
             [EnvMagic, Imports, RunHostname, AssignIPADDR, MakeCluster, MakeClient, MakeFrame,
              FromCudf, SplitTrain, SplitTest, Version, Wait, MakeDMatrix] \<and>
           world s5 = 8 \<and> client s5 = Some 2 \<and> dtrain s5 = Some 3 \<and>
           trained_model s5 = tm \<and> booster s5 = None \<and> history s5 = None"
proof -
  define s6 where "s6 = ex_before_cluster\<lparr>world := 4, cluster := Some 1, client := Some 2,
    trained_model := tm\<rparr>"
  have r2: "snd (run L (take 2 notebook) s0) = Inr s6"
    by (simp add: eval_defs L_def s0_def fresh_def ex_before_cluster_def s6_def)
  have "length (replicate nb_size (0 :: int)) = length (replicate nb_size (0 :: real))"
    by simp
  from make_cdf_ok [OF this] obtain tab where
    tab: "make_cdf (replicate nb_size 0) (replicate nb_size 0) = Inr tab"
    by blast
  from from_cudf_total [of npartitions tab] obtain dtab where
    dtab: "from_cudf tab npartitions = Inr dtab"
    by (auto simp: npartitions_def)
  from split_cdf [OF tab dtab] obtain tr Xtr Ytr te Xte Yte where
    sp: "split_xy dtab train_expr = Inr (tr, Xtr, Ytr)" "split_xy dtab test_expr = Inr (te, Xte, Yte)"
    by blast
  define s7 where "s7 = s6\<lparr>world := 6, cdf := Some tab\<rparr>"
  define s8 where "s8 = s7\<lparr>ddf := Some dtab\<rparr>"
  define s9 where "s9 = s8\<lparr>X_train := Some Xtr, Y_train := Some Ytr\<rparr>"
  define s10 where "s10 = s9\<lparr>X_test := Some Xte, Y_test := Some Yte\<rparr>"
  define s12 where "s12 = s10\<lparr>world := 7\<rparr>"
  define s13 where "s13 = s12\<lparr>world := 8, dtrain := Some 3\<rparr>"
  note st = s6_def s7_def s8_def s9_def s10_def s12_def s13_def ex_before_cluster_def init_def
  note ev = call_def try_py_def var_def ok_lib_def L_def
  have e7: "exec L MakeFrame s6 = Inr s7"
    by (simp add: ev s6_def s7_def tab)
  have e8: "exec L FromCudf s7 = Inr s8"
    by (simp add: ev s7_def s8_def dtab)
  have e9: "exec L SplitTrain s8 = Inr s9"
    by (simp add: ev s8_def s9_def sp)
  have e10: "exec L SplitTest s9 = Inr s10"
    by (simp add: ev s8_def s9_def s10_def sp)
  have e11: "exec L Version s10 = Inr s10"
    by simp
  have e12: "exec L Wait s10 = Inr s12"
    by (simp add: ev st)
  have e13: "exec L MakeDMatrix s12 = Inr s13"
    by (simp add: ev st)
  have n5: "take 5 notebook =
      take 2 notebook @ [Plain [MakeFrame, FromCudf, SplitTrain, SplitTest], Plain [Version],
        Plain [Wait, MakeDMatrix]]"
    by (simp add: notebook_def)
  have c3: "snd (run_cell L (Plain [MakeFrame, FromCudf, SplitTrain, SplitTest]) s6) = Inr s10"
    by (rule run_cell_plain_ok)
      (simp add: run_body_Cons_Inr [OF e7] run_body_Cons_Inr [OF e8] run_body_Cons_Inr [OF e9]
        run_body_Cons_Inr [OF e10])
  have c4: "snd (run_cell L (Plain [Version]) s10) = Inr s10"
    by (rule run_cell_plain_ok) (simp add: run_body_Cons_Inr [OF e11])
  have c5: "snd (run_cell L (Plain [Wait, MakeDMatrix]) s10) = Inr s13"
    by (rule run_cell_plain_ok)
      (simp add: run_body_Cons_Inr [OF e12] run_body_Cons_Inr [OF e13])
  have "snd (run L [Plain [MakeFrame, FromCudf, SplitTrain, SplitTest], Plain [Version],
        Plain [Wait, MakeDMatrix]] s6) = Inr s13"
    by (simp add: run_Cons_Inr [OF c3] run_Cons_Inr [OF c4] run_Cons_Inr [OF c5])
  then have r5: "snd (run L (take 5 notebook) s0) = Inr s13"
    unfolding n5 run_append using r2
    by (cases "run L (take 2 notebook) fresh") (auto split: prod.splits)
  have "map fst (fst (run L (take 5 notebook) s0)) = concat (map body (take 5 notebook))"
    by (rule run_plain_trace [OF _ r5]) (simp add: first_cells)
  then have tr5: "map fst (fst (run L (take 5 notebook) s0)) =
      [EnvMagic, Imports, RunHostname, AssignIPADDR, MakeCluster, MakeClient, MakeFrame,
       FromCudf, SplitTrain, SplitTest, Version, Wait, MakeDMatrix]"
    by (simp add: first_cells)
  have "world s13 = 8 \<and> client s13 = Some 2 \<and> dtrain s13 = Some 3 \<and>
        trained_model s13 = tm \<and> booster s13 = None \<and> history s13 = None"
    by (simp add: st)
  then show ?thesis using r5 tr5 by (intro exI [of _ s13]) simp
qed

lemma ok_first_cells:
  fixes f :: "handle \<Rightarrow> pydict \<Rightarrow> handle \<Rightarrow> int \<Rightarrow> nat \<Rightarrow> error \<times> nat + (handle \<times> history) \<times> nat"
  defines "L \<equiv> ok_lib\<lparr>xgb_dask_train := f\<rparr>"
  shows "\<exists>s5. snd (run L (take 5 notebook) fresh) = Inr s5 \<and>
           map fst (fst (run L (take 5 notebook) fresh)) =
             [EnvMagic, Imports, RunHostname, AssignIPADDR, MakeCluster, MakeClient, MakeFrame,
              FromCudf, SplitTrain, SplitTest, Version, Wait, MakeDMatrix] \<and>
           world s5 = 8 \<and> client s5 = Some 2 \<and> dtrain s5 = Some 3 \<and>
           trained_model s5 = None \<and> booster s5 = None \<and> history s5 = None"
proof -
  have "fresh\<lparr>trained_model := None\<rparr> = (fresh :: nat state)"
    by (simp add: fresh_def init_def)
  then show ?thesis
    using ok_first_cells_from [of f None] by (simp add: L_def)
qed


lemma trace_cell_in_run: "set (fst (run_body L (body d) s)) \<subseteq> set (fst (run L (d # ds) s))"
  by (cases "snd (run_cell L d s)") (auto simp: run_Cons_Inl run_Cons_Inr trace_run_cell)

lemma trace_drop_in_run:
  assumes "i < length ces" and "snd (run L (take i ces) s) = Inr si"
  shows "set (fst (run L (drop i ces) si)) \<subseteq> set (fst (run L ces s))"
  by (simp add: run_split [OF assms])

lemma ok_lib_train: "ok_lib\<lparr>xgb_dask_train := xgb_dask_train ok_lib\<rparr> = ok_lib"
  by simp


lemma extractions:
  assumes "snd (run_body L [GetBooster, GetHistory] s) = Inr t"
  shows "\<exists>m b h. trained_model s = Some m \<and> trained_model t = Some m \<and>
           map_of m ''booster'' = Some b \<and> map_of m ''history'' = Some h \<and>
           booster t = Some b \<and> history t = Some h"
  using assms
  by (auto simp: run_body.simps try_py_def var_def getitem_dict_def
      split: option.splits sum.splits prod.splits)

lemma after_extractions:
  assumes "(SetParam, t) \<in> set (fst (run L notebook s0))"
  shows "\<exists>m b h. trained_model t = Some m \<and>
           map_of m ''booster'' = Some b \<and> map_of m ''history'' = Some h \<and>
           booster t = Some b \<and> history t = Some h"
proof -
  have "\<exists>si. snd (run L (take 6 notebook) s0) = Inr si \<and>
          (SetParam, t) \<in> set (fst (run_body L (body (notebook ! 6)) si))"
    by (rule notebook_entry [OF assms(1)]) (simp_all add: notebook_def)
  then obtain s6 where
    s6: "(SetParam, t) \<in> set (fst (run_body L [GetBooster, GetHistory, SetParam] s6))"
    by (auto simp: notebook_def)
  from run_body_trace_entry [OF s6] obtain k where
    k: "k < length [GetBooster, GetHistory, SetParam]"
      "[GetBooster, GetHistory, SetParam] ! k = SetParam"
      "snd (run_body L (take k [GetBooster, GetHistory, SetParam]) s6) = Inr t"
    by blast
  have "k = Suc (Suc 0)"
    using k(1,2) by (auto simp: less_Suc_eq)
  then have "snd (run_body L [GetBooster, GetHistory] s6) = Inr t"
    using k(3) by simp
  from extractions [OF this] show ?thesis by blast
qed


subsection \<open>An exception in a cell\<close>

lemma cell_error:
  assumes "i < length ces" and "snd (run L (take i ces) s0) = Inr si"
    and "k < length (body (ces ! i))"
    and "snd (run_body L (take k (body (ces ! i))) si) = Inr s"
    and "exec L (body (ces ! i) ! k) s = Inl (e, s')"
  shows "ces ! i = Plain cs \<Longrightarrow>
           run L ces s0 =
             (fst (run L (take i ces) s0) @ fst (run_body L (take k cs) si) @ [(cs ! k, s)], Inl e)"
    and "ces ! i = Timed cs \<Longrightarrow>
           run L ces s0 =
             (fst (run L (take i ces) s0) @ fst (run_body L (take k cs) si) @
                (cs ! k, s) # fst (run L (drop (Suc i) ces) (show_traceback e s')),
              snd (run L (drop (Suc i) ces) (show_traceback e s')))"
proof -
  note sp = run_split [OF assms(1,2)]
  have d: "drop i ces = ces ! i # drop (Suc i) ces"
    using assms(1) by (simp add: Cons_nth_drop_Suc)
  note b = run_body_stops [OF assms(3,4,5)]
  show "run L ces s0 =
          (fst (run L (take i ces) s0) @ fst (run_body L (take k cs) si) @ [(cs ! k, s)], Inl e)"
    if "ces ! i = Plain cs"
  proof -
    have "run_cell L (ces ! i) si = (fst (run_body L (take k cs) si) @ [(cs ! k, s)], Inl e)"
      using b that by simp
    then have "run L (drop i ces) si = (fst (run_body L (take k cs) si) @ [(cs ! k, s)], Inl e)"
      unfolding d by (simp add: run.simps(2))
    then show ?thesis by (simp add: sp)
  qed
  show "run L ces s0 =
          (fst (run L (take i ces) s0) @ fst (run_body L (take k cs) si) @
             (cs ! k, s) # fst (run L (drop (Suc i) ces) (show_traceback e s')),
           snd (run L (drop (Suc i) ces) (show_traceback e s')))"
    if "ces ! i = Timed cs"
  proof -
    have "run_cell L (ces ! i) si =
            (fst (run_body L (take k cs) si) @ [(cs ! k, s)], Inr (show_traceback e s'))"
      using b that by simp
    then have "run L (drop i ces) si =
        (fst (run_body L (take k cs) si) @ (cs ! k, s) #
           fst (run L (drop (Suc i) ces) (show_traceback e s')),
         snd (run L (drop (Suc i) ces) (show_traceback e s')))"
      unfolding d by (simp add: run.simps(2) case_prod_unfold)
    then show ?thesis by (simp add: sp)
  qed
qed

lemma hd_run:
  "hd (fst (run L (Plain (c # cs) # ds) s)) = (c, s)"
  "hd (fst (run L (Timed (c # cs) # ds) s)) = (c, s)"
  by (cases "exec L c s"; simp add: run.simps(2) run_body.simps(2) case_prod_unfold
      split: sum.splits prod.splits)+

lemma plain_cells:
  assumes "i < length notebook" and "c \<in> set (body (notebook ! i))"
    and "c \<noteq> AssignParams" and "c \<noteq> Train" and "c \<noteq> Method1" and "c \<noteq> Method2"
  shows "\<exists>cs. notebook ! i = Plain cs"
proof -
  have "i < 5 \<or> i = 5 \<or> i = 6 \<or> i = 7 \<or> i = 8"
    using assms(1) by (auto simp: notebook_def)
  moreover have "\<exists>cs. notebook ! i = Plain cs" if "i < 5"
    using that by (auto simp: notebook_def nth_Cons' less_Suc_eq numeral_eq_Suc)
  ultimately show ?thesis
    using assms(2-) by (auto simp: notebook_def)
qed


subsection \<open>A training call that raises, on a kernel that is not fresh\<close>

text \<open>
  When the training call raises, \<^verbatim>\<open>%%time\<close> shows the traceback and the next cell reads the
  name \<^verbatim>\<open>trained_model\<close> as an earlier run left it.  Here it was left bound to a dictionary
  whose entry \<^verbatim>\<open>'booster'\<close> is no booster: both extractions succeed, the parameter-set call
  is started, and it is this call that ends the run.
\<close>

lemma stale_model_is_read:
  fixes stale :: "(string \<times> obj) list"
  defines "stale \<equiv> [(''booster'', History []), (''history'', History [])]"
  shows "\<exists>t. (SetParam, t) \<in>
           set (fst (run train_fails_lib notebook (fresh\<lparr>trained_model := Some stale\<rparr>))) \<and>
         trained_model t = Some stale \<and> booster t = Some (History []) \<and>
         snd (run train_fails_lib notebook (fresh\<lparr>trained_model := Some stale\<rparr>)) =
           Inl AttributeError"
proof -
  let ?s0 = "fresh\<lparr>trained_model := Some stale\<rparr> :: nat state"
  from ok_first_cells_from [of "\<lambda>c p d n w. Inl (LibraryError 3, Suc w)" "Some stale"]
  obtain s5 where
    s5: "snd (run train_fails_lib (take 5 notebook) ?s0) = Inr s5"
      "world s5 = 8" "client s5 = Some 2" "dtrain s5 = Some 3" "trained_model s5 = Some stale"
    unfolding train_fails_lib_def by auto
  have l: "5 < length notebook"
    by (simp add: notebook_def)
  define t where "t = show_traceback (LibraryError 3)
    (s5\<lparr>params := Some notebook_params, world := 9\<rparr>)\<lparr>booster := Some (History []),
      history := Some (History [])\<rparr>"
  have r: "run train_fails_lib (drop 5 notebook) s5 =
      ([(AssignParams, s5), (Train, s5\<lparr>params := Some notebook_params\<rparr>),
        (GetBooster, show_traceback (LibraryError 3) (s5\<lparr>params := Some notebook_params, world := 9\<rparr>)),
        (GetHistory, show_traceback (LibraryError 3)
           (s5\<lparr>params := Some notebook_params, world := 9\<rparr>)\<lparr>booster := Some (History [])\<rparr>),
        (SetParam, t)],
       Inl AttributeError)"
    by (simp add: notebook_def run.simps run_body.simps call_def try_py_def var_def
        train_args_def getitem_dict_def notebook_params_def train_fails_lib_def ok_lib_def
        booster_handle_def show_traceback_def stale_def t_def s5)
  have "trained_model t = Some stale \<and> booster t = Some (History [])"
    by (simp add: t_def show_traceback_def s5)
  then show ?thesis
    by (intro exI [of _ t]) (simp add: run_split [OF l s5(1)] r)
qed

section \<open>The claims about the data cell\<close>

text \<open>
  C1.  The split is a row filter by the threshold \<open>0.5\<close> on column \<open>y\<close>.  For every row of
  the generated table, whose \<open>y\<close> cell is the entry of the random array at the row's label:
  the row is in the train subset exactly when that value is less than \<open>0.5\<close>, it is in the
  test subset exactly when that value is greater than \<open>0.5\<close>, and it is never in both.  The
  feature and label frames \<open>X\<close> and \<open>Y\<close> cut from a subset carry the labels of the subset.
\<close>

theorem split_is_threshold_filter:
  assumes "make_cdf xs ys = Inr tab" and "from_cudf tab npartitions = Inr dtab"
  shows "\<exists>tr Xtr Ytr te Xte Yte.
           split_xy dtab train_expr = Inr (tr, Xtr, Ytr) \<and>
           split_xy dtab test_expr = Inr (te, Xte, Yte) \<and>
           map label (rows (dd_compute Xtr)) = map label (rows (dd_compute tr)) \<and>
           map label (rows (dd_compute Ytr)) = map label (rows (dd_compute tr)) \<and>
           map label (rows (dd_compute Xte)) = map label (rows (dd_compute te)) \<and>
           map label (rows (dd_compute Yte)) = map label (rows (dd_compute te)) \<and>
           set (rows (dd_compute tr)) \<subseteq> set (rows tab) \<and>
           set (rows (dd_compute te)) \<subseteq> set (rows tab) \<and>
           (\<forall>r\<in>set (rows tab).
              cell r ''y'' = Some (F (ys ! label r)) \<and>
              (r \<in> set (rows (dd_compute tr)) \<longleftrightarrow> ys ! label r < 1 / 2) \<and>
              (r \<in> set (rows (dd_compute te)) \<longleftrightarrow> 1 / 2 < ys ! label r) \<and>
              \<not> (r \<in> set (rows (dd_compute tr)) \<and> r \<in> set (rows (dd_compute te))))"
proof -
  from split_xy_cdf [OF assms, of Lt "1 / 2"] query_cdf [OF assms, of Lt "1 / 2"]
  obtain tr Xtr Ytr where
    tr: "split_xy dtab train_expr = Inr (tr, Xtr, Ytr)"
      "map label (rows (dd_compute Xtr)) = map label (rows (dd_compute tr))"
      "map label (rows (dd_compute Ytr)) = map label (rows (dd_compute tr))"
      "rows (dd_compute tr) = filter (satisfies train_expr) (rows tab)"
    unfolding train_expr_def by auto
  from split_xy_cdf [OF assms, of Gt "1 / 2"] query_cdf [OF assms, of Gt "1 / 2"]
  obtain te Xte Yte where
    te: "split_xy dtab test_expr = Inr (te, Xte, Yte)"
      "map label (rows (dd_compute Xte)) = map label (rows (dd_compute te))"
      "map label (rows (dd_compute Yte)) = map label (rows (dd_compute te))"
      "rows (dd_compute te) = filter (satisfies test_expr) (rows tab)"
    unfolding test_expr_def by auto
  have "cell r ''y'' = Some (F (ys ! label r)) \<and>
        (r \<in> set (rows (dd_compute tr)) \<longleftrightarrow> ys ! label r < 1 / 2) \<and>
        (r \<in> set (rows (dd_compute te)) \<longleftrightarrow> 1 / 2 < ys ! label r) \<and>
        \<not> (r \<in> set (rows (dd_compute tr)) \<and> r \<in> set (rows (dd_compute te)))"
    if r: "r \<in> set (rows tab)" for r
  proof -
    note c = cdf_row(2) [OF assms(1) r]
    show ?thesis
      using r satisfies_train [OF c] satisfies_test [OF c]
      by (simp add: tr(4) te(4) cell_def c)
  qed
  then show ?thesis
    using tr te by (intro exI conjI) (assumption | simp | blast)+
qed



theorem split_is_threshold_filter_witness:
  "make_cdf [3, 5] [0, 1] = Inr ex_cdf \<and> from_cudf ex_cdf npartitions = Inr ex_ddf \<and>
   (\<exists>tr Xtr Ytr te Xte Yte.
      split_xy ex_ddf train_expr = Inr (tr, Xtr, Ytr) \<and>
      split_xy ex_ddf test_expr = Inr (te, Xte, Yte) \<and>
      (\<forall>r\<in>set (rows ex_cdf).
         (r \<in> set (rows (dd_compute tr)) \<longleftrightarrow> [0, 1] ! label r < (1 / 2 :: real)) \<and>
         (r \<in> set (rows (dd_compute te)) \<longleftrightarrow> (1 / 2 :: real) < [0, 1] ! label r)))"
proof -
  have h1: "make_cdf [3, 5] [0, 1] = Inr ex_cdf"
    by (simp add: make_cdf_def DataFrame_def ex_cdf_def upt_rec)
  have h2: "from_cudf ex_cdf npartitions = Inr ex_ddf"
    by (simp add: from_cudf_def npartitions_def ex_cdf_def ex_ddf_def chunks_step)
  from split_is_threshold_filter [OF h1 h2] obtain tr Xtr Ytr te Xte Yte where
    "split_xy ex_ddf train_expr = Inr (tr, Xtr, Ytr)"
    "split_xy ex_ddf test_expr = Inr (te, Xte, Yte)"
    "\<forall>r\<in>set (rows ex_cdf).
         (r \<in> set (rows (dd_compute tr)) \<longleftrightarrow> [0, 1] ! label r < (1 / 2 :: real)) \<and>
         (r \<in> set (rows (dd_compute te)) \<longleftrightarrow> (1 / 2 :: real) < [0, 1] ! label r)"
    by blast
  with h1 h2 show ?thesis by blast
qed

text \<open>
  C10.  The split is not exhaustive.  In every generated table, a row whose \<open>y\<close> value is
  exactly \<open>0.5\<close> is neither in the subset selected by \<^verbatim>\<open>'y < 0.5'\<close> nor in the subset
  selected by \<^verbatim>\<open>'y > 0.5'\<close>; and there is a generated table of the notebook's size for
  which the union of the two subsets is a proper subset of the table.
\<close>

theorem boundary_rows_in_neither_subset:
  "(\<forall>xs ys tab dtab.
      make_cdf xs ys = Inr tab \<and> from_cudf tab npartitions = Inr dtab \<longrightarrow>
      (\<exists>tr Xtr Ytr te Xte Yte.
         split_xy dtab train_expr = Inr (tr, Xtr, Ytr) \<and>
         split_xy dtab test_expr = Inr (te, Xte, Yte) \<and>
         (\<forall>r\<in>set (rows tab). ys ! label r = 1 / 2 \<longrightarrow>
            r \<notin> set (rows (dd_compute tr)) \<and> r \<notin> set (rows (dd_compute te))))) \<and>
   (\<exists>xs ys tab dtab tr Xtr Ytr te Xte Yte.
      length xs = nb_size \<and> length ys = nb_size \<and>
      make_cdf xs ys = Inr tab \<and> from_cudf tab npartitions = Inr dtab \<and>
      split_xy dtab train_expr = Inr (tr, Xtr, Ytr) \<and>
      split_xy dtab test_expr = Inr (te, Xte, Yte) \<and>
      set (rows (dd_compute tr)) \<union> set (rows (dd_compute te)) \<subset> set (rows tab))"
proof (intro conjI allI impI)
  fix xs ys tab dtab
  assume "make_cdf xs ys = Inr tab \<and> from_cudf tab npartitions = Inr dtab"
  then have a: "make_cdf xs ys = Inr tab" "from_cudf tab npartitions = Inr dtab" by simp_all
  from split_cdf [OF a] obtain tr Xtr Ytr te Xte Yte where
    s: "split_xy dtab train_expr = Inr (tr, Xtr, Ytr)"
      "split_xy dtab test_expr = Inr (te, Xte, Yte)"
      "query tab train_expr = Inr (dd_compute tr)"
      "query tab test_expr = Inr (dd_compute te)"
    by blast
  have "r \<notin> set (rows (dd_compute tr)) \<and> r \<notin> set (rows (dd_compute te))"
    if r: "r \<in> set (rows tab)" and h: "ys ! label r = 1 / 2" for r
    using satisfies_train [OF cdf_row(2) [OF a(1) r]] satisfies_test [OF cdf_row(2) [OF a(1) r]] h
    by (simp add: query_rows [OF s(3)] query_rows [OF s(4)])
  then show "\<exists>tr Xtr Ytr te Xte Yte.
         split_xy dtab train_expr = Inr (tr, Xtr, Ytr) \<and>
         split_xy dtab test_expr = Inr (te, Xte, Yte) \<and>
         (\<forall>r\<in>set (rows tab). ys ! label r = 1 / 2 \<longrightarrow>
            r \<notin> set (rows (dd_compute tr)) \<and> r \<notin> set (rows (dd_compute te)))"
    using s(1,2) by blast
next
  define xs :: "int list" where "xs = replicate nb_size 0"
  define ys :: "real list" where "ys = replicate nb_size (1 / 2)"
  have len: "length xs = nb_size" "length ys = nb_size"
    by (simp_all add: xs_def ys_def)
  then have "length xs = length ys" by simp
  from make_cdf_ok [OF this] obtain tab where tab: "make_cdf xs ys = Inr tab" by blast
  from from_cudf_total [of npartitions tab] obtain dtab where
    dtab: "from_cudf tab npartitions = Inr dtab"
    by (auto simp: npartitions_def)
  from split_cdf [OF tab dtab] obtain tr Xtr Ytr te Xte Yte where
    s: "split_xy dtab train_expr = Inr (tr, Xtr, Ytr)"
      "split_xy dtab test_expr = Inr (te, Xte, Yte)"
      "query tab train_expr = Inr (dd_compute tr)"
      "query tab test_expr = Inr (dd_compute te)"
    by blast
  have none: "\<not> satisfies train_expr r \<and> \<not> satisfies test_expr r" if r: "r \<in> set (rows tab)" for r
  proof -
    have "label r < nb_size" using cdf_row(1) [OF tab r] len by simp
    then have "ys ! label r = 1 / 2" by (simp add: ys_def)
    then show ?thesis
      using satisfies_train [OF cdf_row(2) [OF tab r]] satisfies_test [OF cdf_row(2) [OF tab r]]
      by simp
  qed
  have "set (rows (dd_compute tr)) \<union> set (rows (dd_compute te)) = {}"
    using none by (auto simp: query_rows [OF s(3)] query_rows [OF s(4)])
  moreover have "set (rows tab) \<noteq> {}"
    using len by (simp add: cdf_rows(3) [OF tab] nb_size_def)
  ultimately have "set (rows (dd_compute tr)) \<union> set (rows (dd_compute te)) \<subset> set (rows tab)"
    by auto
  then show "\<exists>xs ys tab dtab tr Xtr Ytr te Xte Yte.
      length xs = nb_size \<and> length ys = nb_size \<and>
      make_cdf xs ys = Inr tab \<and> from_cudf tab npartitions = Inr dtab \<and>
      split_xy dtab train_expr = Inr (tr, Xtr, Ytr) \<and>
      split_xy dtab test_expr = Inr (te, Xte, Yte) \<and>
      set (rows (dd_compute tr)) \<union> set (rows (dd_compute te)) \<subset> set (rows tab)"
    using len tab dtab s(1,2) by blast
qed

theorem boundary_rows_in_neither_subset_witness:
  "make_cdf [3] [1 / 2] = Inr ex_half_cdf \<and> from_cudf ex_half_cdf npartitions = Inr ex_half_ddf \<and>
   rows ex_half_cdf = [\<lparr>label = 0, cells = [(''x'', I 3), (''y'', F (1 / 2))]\<rparr>] \<and>
   [1 / 2 :: real] ! 0 = 1 / 2 \<and>
   (\<exists>tr Xtr Ytr te Xte Yte.
      split_xy ex_half_ddf train_expr = Inr (tr, Xtr, Ytr) \<and>
      split_xy ex_half_ddf test_expr = Inr (te, Xte, Yte) \<and>
      \<lparr>label = 0, cells = [(''x'', I 3), (''y'', F (1 / 2))]\<rparr> \<notin> set (rows (dd_compute tr)) \<and>
      \<lparr>label = 0, cells = [(''x'', I 3), (''y'', F (1 / 2))]\<rparr> \<notin> set (rows (dd_compute te)))"
proof -
  have h1: "make_cdf [3] [1 / 2] = Inr ex_half_cdf"
    by (simp add: make_cdf_def DataFrame_def ex_half_cdf_def)
  have h2: "from_cudf ex_half_cdf npartitions = Inr ex_half_ddf"
    by (simp add: from_cudf_def npartitions_def ex_half_cdf_def ex_half_ddf_def chunks_step)
  have h3: "rows ex_half_cdf = [\<lparr>label = 0, cells = [(''x'', I 3), (''y'', F (1 / 2))]\<rparr>]"
    by (simp add: ex_half_cdf_def)
  from boundary_rows_in_neither_subset h1 h2
  obtain tr Xtr Ytr te Xte Yte where
    s: "split_xy ex_half_ddf train_expr = Inr (tr, Xtr, Ytr)"
      "split_xy ex_half_ddf test_expr = Inr (te, Xte, Yte)"
      "\<forall>r\<in>set (rows ex_half_cdf). [1 / 2 :: real] ! label r = 1 / 2 \<longrightarrow>
         r \<notin> set (rows (dd_compute tr)) \<and> r \<notin> set (rows (dd_compute te))"
    by blast
  from s(3) have
    "\<lparr>label = 0, cells = [(''x'', I 3), (''y'', F (1 / 2))]\<rparr> \<notin> set (rows (dd_compute tr)) \<and>
     \<lparr>label = 0, cells = [(''x'', I 3), (''y'', F (1 / 2))]\<rparr> \<notin> set (rows (dd_compute te))"
    by (simp add: h3)
  with h1 h2 h3 s(1,2) show ?thesis by auto
qed

text \<open>
  C5.  For random arrays of the notebook's size, the generated table has exactly the two
  columns \<open>x\<close> (integers) and \<open>y\<close> (floats) and \<open>1000000\<close> rows; \<^verbatim>\<open>from_cudf\<close> distributes it
  over exactly \<open>8\<close> partitions, no index label occurs in two of them, and their concatenation
  is the table.  Each of the two filtered subsets has \<open>8\<close> partitions as well, every partition
  has the columns of the table, and the concatenation of the partitions is the result of
  the query on the whole table.
\<close>

theorem partitions_reconstruct_table:
  assumes "length xs = nb_size" and "length ys = nb_size"
  shows "\<exists>tab dtab tr Xtr Ytr te Xte Yte.
           make_cdf xs ys = Inr tab \<and> from_cudf tab npartitions = Inr dtab \<and>
           split_xy dtab train_expr = Inr (tr, Xtr, Ytr) \<and>
           split_xy dtab test_expr = Inr (te, Xte, Yte) \<and>
           columns tab = [''x'', ''y''] \<and>
           (\<forall>r\<in>set (rows tab). \<exists>a b. cells r = [(''x'', I a), (''y'', F b)]) \<and>
           length (rows tab) = 1000000 \<and>
           length (partitions dtab) = 8 \<and>
           (\<forall>i j. i < j \<and> j < 8 \<longrightarrow>
              label ` set (rows (partitions dtab ! i)) \<inter> label ` set (rows (partitions dtab ! j)) = {}) \<and>
           dd_compute dtab = tab \<and>
           (\<forall>p\<in>set (partitions dtab). columns p = columns tab) \<and>
           length (partitions tr) = 8 \<and>
           query tab train_expr = Inr (dd_compute tr) \<and>
           (\<forall>p\<in>set (partitions tr). columns p = columns tab) \<and>
           length (partitions te) = 8 \<and>
           query tab test_expr = Inr (dd_compute te) \<and>
           (\<forall>p\<in>set (partitions te). columns p = columns tab)"
proof -
  have "length xs = length ys" using assms by simp
  from make_cdf_ok [OF this] obtain tab where tab: "make_cdf xs ys = Inr tab" by blast
  from from_cudf_total [of npartitions tab] obtain dtab where
    dtab: "from_cudf tab npartitions = Inr dtab"
    by (auto simp: npartitions_def)
  from split_cdf [OF tab dtab] obtain tr Xtr Ytr te Xte Yte where
    s: "split_xy dtab train_expr = Inr (tr, Xtr, Ytr)"
      "split_xy dtab test_expr = Inr (te, Xte, Yte)"
      "query tab train_expr = Inr (dd_compute tr)"
      "query tab test_expr = Inr (dd_compute te)"
      "length (partitions tr) = length (partitions dtab)"
      "length (partitions te) = length (partitions dtab)"
      "\<forall>p\<in>set (partitions tr). columns p = [''x'', ''y'']"
      "\<forall>p\<in>set (partitions te). columns p = [''x'', ''y'']"
    by blast
  note cols = cdf_rows(2) [OF tab]
  have cells: "\<forall>r\<in>set (rows tab). \<exists>a b. cells r = [(''x'', I a), (''y'', F b)]"
    using cdf_row(2) [OF tab] by blast
  have len: "length (rows tab) = 1000000"
    using assms(2) by (simp add: cdf_rows(3) [OF tab] nb_size_def)
  have n8: "length (partitions dtab) = 8"
    by (rule notebook_partition_count [OF tab dtab assms(2)])
  have disj: "\<forall>i j. i < j \<and> j < 8 \<longrightarrow>
      label ` set (rows (partitions dtab ! i)) \<inter> label ` set (rows (partitions dtab ! j)) = {}"
    using from_cudf_disjoint [OF tab dtab] n8 by simp
  note comp = from_cudf_compute [OF dtab]
  have dcols: "\<forall>p\<in>set (partitions dtab). columns p = columns tab"
    by (rule from_cudf_columns(2) [OF dtab])
  show ?thesis
    using tab dtab s(1,2) cols cells len n8 disj comp dcols s(3,4) s(5,6) s(7,8)
    by (intro exI conjI) (assumption | simp)+
qed

theorem partitions_reconstruct_table_witness:
  "length (replicate nb_size (0 :: int)) = nb_size \<and>
   length (replicate nb_size (0 :: real)) = nb_size \<and>
   (\<exists>tab dtab. make_cdf (replicate nb_size 0) (replicate nb_size 0) = Inr tab \<and>
      from_cudf tab npartitions = Inr dtab \<and>
      length (partitions dtab) = 8 \<and> dd_compute dtab = tab \<and>
      (\<forall>p\<in>set (partitions dtab). columns p = [''x'', ''y'']))"
proof -
  have h1: "length (replicate nb_size (0 :: int)) = nb_size" by simp
  have h2: "length (replicate nb_size (0 :: real)) = nb_size" by simp
  from partitions_reconstruct_table [OF h1 h2] obtain tab dtab where
    "make_cdf (replicate nb_size 0) (replicate nb_size 0) = Inr tab"
    "from_cudf tab npartitions = Inr dtab"
    "length (partitions dtab) = 8" "dd_compute dtab = tab"
    "columns tab = [''x'', ''y'']"
    "\<forall>p\<in>set (partitions dtab). columns p = columns tab"
    by blast
  then show ?thesis using h1 h2 by auto
qed

section \<open>The claims about the run of the notebook\<close>

text \<open>
  C4.  \<^verbatim>\<open>NCCL_P2P_DISABLE\<close> is set before the distributed runtime starts.  In every run the
  first statement started is the \<^verbatim>\<open>%env\<close> magic, and every statement started after it, in
  particular the cluster constructor and the client constructor, starts in a state whose
  environment maps \<^verbatim>\<open>NCCL_P2P_DISABLE\<close> to \<^verbatim>\<open>1\<close>.
\<close>

theorem env_set_before_runtime:
  "(\<exists>rest. fst (run L notebook s) = (EnvMagic, s) # rest \<and>
      (\<forall>(c, s')\<in>set rest. c \<noteq> EnvMagic \<and> environ s' ''NCCL_P2P_DISABLE'' = Some ''1'')) \<and>
   (\<forall>(c, s')\<in>set (fst (run L notebook s)).
      c = MakeCluster \<or> c = MakeClient \<longrightarrow> environ s' ''NCCL_P2P_DISABLE'' = Some ''1'')"
proof -
  define s1 where "s1 = s\<lparr>environ := (environ s)(''NCCL_P2P_DISABLE'' \<mapsto> ''1'')\<rparr>"
  define rest where "rest = fst (run L (tl notebook) s1)"
  have e: "run_cell L (Plain [EnvMagic]) s = ([(EnvMagic, s)], Inr s1)"
    by (simp add: s1_def run_body.simps)
  have nb: "notebook = Plain [EnvMagic] # tl notebook" by (simp add: notebook_def)
  have no: "EnvMagic \<notin> set (concat (map body (tl notebook)))" by (simp add: notebook_def)
  have e2: "snd (run_cell L (Plain [EnvMagic]) s) = Inr s1"
    by (simp only: e snd_conv)
  have tr: "fst (run L notebook s) = (EnvMagic, s) # rest"
    by (subst nb) (simp only: run_Cons_Inr [OF e2] e fst_conv rest_def append_Cons append_Nil)
  have "environ s1 ''NCCL_P2P_DISABLE'' = Some ''1''" by (simp add: s1_def)
  from run_env [OF this no, of L]
  have env: "\<forall>(c, s')\<in>set rest. environ s' ''NCCL_P2P_DISABLE'' = Some ''1''"
    by (simp add: rest_def)
  have ne: "\<forall>(c, s')\<in>set rest. c \<noteq> EnvMagic"
    using run_trace_in [of _ _ L "tl notebook" s1] no by (auto simp: rest_def)
  show ?thesis
    using tr env ne by (auto simp: case_prod_unfold)
qed

theorem env_set_before_runtime_witness:
  "(MakeCluster, ex_before_cluster) \<in> set (fst (run randint_fails_lib notebook (init 0 Map.empty))) \<and>
   environ ex_before_cluster ''NCCL_P2P_DISABLE'' = Some ''1''"
proof -
  have h: "(MakeCluster, ex_before_cluster) \<in> set (fst (run randint_fails_lib notebook (init 0 Map.empty)))"
    by (simp add: eval_defs randint_fails_lib_def ex_before_cluster_def)
  from env_set_before_runtime [of randint_fails_lib "init 0 Map.empty"] h
  show ?thesis by blast
qed


text \<open>
  C9.  The cluster address is the first whitespace-separated token of the output of the
  \<^verbatim>\<open>hostname\<close> command.  The extraction raises \<^verbatim>\<open>IndexError\<close> exactly when the output has no
  token (it is empty or all whitespace), and otherwise yields the first token.  When the
  command prints no token, the run of the notebook ends with \<^verbatim>\<open>IndexError\<close> at the
  assignment of \<^verbatim>\<open>IPADDR\<close>, and neither the cluster nor the client constructor is started.
\<close>

theorem no_address_no_cluster:
  "(IPADDR_of out = Inl IndexError \<longleftrightarrow> (\<forall>c\<in>set out. isspace c)) \<and>
   (\<not> (\<forall>c\<in>set out. isspace c) \<longrightarrow>
      IPADDR_of out = Inr (takeWhile (\<lambda>c. \<not> isspace c) (dropWhile isspace out))) \<and>
   IPADDR_of [] = Inl IndexError \<and>
   ((\<forall>c\<in>set out. isspace c) \<and> import_modules L w = Inr ((), w1) \<and>
      popen_communicate L (str_split cmd) w1 = Inr (out, w2) \<longrightarrow>
      snd (run L notebook (init w env)) = Inl IndexError \<and>
      map fst (fst (run L notebook (init w env))) = [EnvMagic, Imports, RunHostname, AssignIPADDR])"
proof (intro conjI impI)
  show "IPADDR_of out = Inl IndexError \<longleftrightarrow> (\<forall>c\<in>set out. isspace c)"
    using str_split_empty_iff [of out]
    by (auto simp: IPADDR_of_def getitem0_def split: list.splits)
  show "IPADDR_of out = Inr (takeWhile (\<lambda>c. \<not> isspace c) (dropWhile isspace out))"
    if "\<not> (\<forall>c\<in>set out. isspace c)"
    using str_split_first [OF that] by (simp add: IPADDR_of_def getitem0_def)
  show "IPADDR_of [] = Inl IndexError"
    by (simp add: IPADDR_of_def getitem0_def str_split_def)
next
  assume a: "(\<forall>c\<in>set out. isspace c) \<and> import_modules L w = Inr ((), w1) \<and>
      popen_communicate L (str_split cmd) w1 = Inr (out, w2)"
  then have "str_split out = []" by (simp add: str_split_empty_iff)
  then have ip: "IPADDR_of out = Inl IndexError"
    by (simp add: IPADDR_of_def getitem0_def)
  show "snd (run L notebook (init w env)) = Inl IndexError"
    using a ip
    by (simp add: notebook_def run.simps run_body.simps call_def try_py_def var_def init_def)
  show "map fst (fst (run L notebook (init w env))) = [EnvMagic, Imports, RunHostname, AssignIPADDR]"
    using a ip
    by (simp add: notebook_def run.simps run_body.simps call_def try_py_def var_def init_def)
qed

theorem no_address_no_cluster_witness:
  "str_split ''  '' = [] \<and> import_modules blank_hostname_lib 0 = Inr ((), 1) \<and>
   popen_communicate blank_hostname_lib (str_split cmd) 1 = Inr (''  '', 2) \<and>
   IPADDR_of ''  '' = Inl IndexError \<and>
   snd (run blank_hostname_lib notebook (init 0 Map.empty)) = Inl IndexError \<and>
   map fst (fst (run blank_hostname_lib notebook (init 0 Map.empty))) =
     [EnvMagic, Imports, RunHostname, AssignIPADDR] \<and>
   str_split ''10.33.227.157 172.17.0.1 '' = [''10.33.227.157'', ''172.17.0.1''] \<and>
   IPADDR_of ''10.33.227.157 172.17.0.1 '' = Inr ''10.33.227.157''"
proof -
  have h1: "\<forall>c\<in>set ''  ''. isspace c"
    by (simp add: isspace_def)
  have h2: "import_modules blank_hostname_lib 0 = Inr ((), 1)"
    by (simp add: blank_hostname_lib_def ok_lib_def)
  have h3: "popen_communicate blank_hostname_lib (str_split cmd) 1 = Inr (''  '', 2)"
    by (simp add: blank_hostname_lib_def ok_lib_def)
  have h4: "\<not> (\<forall>c\<in>set ''10.33.227.157 172.17.0.1 ''. isspace c)"
    by (simp add: isspace_def)
  have s1: "str_split ''  '' = []"
    by (simp add: str_split_def isspace_def)
  have s2: "str_split ''10.33.227.157 172.17.0.1 '' = [''10.33.227.157'', ''172.17.0.1'']"
    by (simp add: str_split_def isspace_def)
  note t = no_address_no_cluster [of "''  ''" blank_hostname_lib 0 1 2 Map.empty]
  note u = no_address_no_cluster [of "''10.33.227.157 172.17.0.1 ''" blank_hostname_lib 0 1 2 Map.empty]
  have "IPADDR_of ''10.33.227.157 172.17.0.1 '' =
          Inr (takeWhile (\<lambda>c. \<not> isspace c) (dropWhile isspace ''10.33.227.157 172.17.0.1 ''))"
    using u h4 by blast
  then have v: "IPADDR_of ''10.33.227.157 172.17.0.1 '' = Inr ''10.33.227.157''"
    by (simp add: isspace_def)
  show ?thesis
    using t h1 h2 h3 s1 s2 v by blast
qed

text \<open>
  C6.  The training call.  The entry \<^verbatim>\<open>'num_rounds'\<close> of the parameter dictionary is \<open>100\<close>.
  In every run, when the training statement starts, its call is
  \<^verbatim>\<open>xgb.dask.train(client, params, dtrain, num_boost_round=100)\<close> with the fixed dictionary, and
  what the call returns is bound to \<^verbatim>\<open>trained_model\<close> as a dictionary with the booster
  under \<^verbatim>\<open>'booster'\<close> and the evaluation history under \<^verbatim>\<open>'history'\<close>.  Whenever the
  parameter-set call starts, \<^verbatim>\<open>booster\<close> and \<^verbatim>\<open>history\<close> hold the entries \<^verbatim>\<open>'booster'\<close> and
  \<^verbatim>\<open>'history'\<close> of \<^verbatim>\<open>trained_model\<close>; and in a run on a fresh kernel, or in a run whose
  training call returned, \<^verbatim>\<open>trained_model\<close> is then a dictionary of exactly that shape.  (A
  training call that raises is caught by \<^verbatim>\<open>%%time\<close>, and the extractions then read whatever
  an earlier run left in \<^verbatim>\<open>trained_model\<close>, as in \<open>stale_model_is_read\<close>.)  The training
  statement is started at most once.
\<close>

theorem training_call:
  "map_of notebook_params ''num_rounds'' = Some (PInt 100) \<and>
   (\<forall>s. (Train, s) \<in> set (fst (run L notebook s0)) \<longrightarrow>
      (\<exists>cl d. train_args s = Inr (cl, notebook_params, d, 100) \<and>
         (\<forall>b h w. xgb_dask_train L cl notebook_params d 100 (world s) = Inr ((b, h), w) \<longrightarrow>
            exec L Train s =
              Inr (s\<lparr>world := w,
                     trained_model := Some [(''booster'', Booster b), (''history'', History h)]\<rparr>)))) \<and>
   (\<forall>s. (SetParam, s) \<in> set (fst (run L notebook s0)) \<longrightarrow>
      (\<exists>m b h. trained_model s = Some m \<and>
         map_of m ''booster'' = Some b \<and> map_of m ''history'' = Some h \<and>
         booster s = Some b \<and> history s = Some h)) \<and>
   (\<forall>s. (SetParam, s) \<in> set (fst (run L notebook s0)) \<and>
        (trained_model s0 = None \<or>
         (\<exists>p p'. (Train, p) \<in> set (fst (run L notebook s0)) \<and> exec L Train p = Inr p')) \<longrightarrow>
      (\<exists>b h. trained_model s = Some [(''booster'', Booster b), (''history'', History h)] \<and>
         booster s = Some (Booster b) \<and> history s = Some (History h))) \<and>
   length (filter (\<lambda>(c, s). c = Train) (fst (run L notebook s0))) \<le> 1"
proof (intro conjI allI impI)
  show "map_of notebook_params ''num_rounds'' = Some (PInt 100)"
    by (simp add: notebook_params_def)
next
  fix s
  assume "(Train, s) \<in> set (fst (run L notebook s0))"
  from before_train [OF this] obtain cl d where
    a: "train_args s = Inr (cl, notebook_params, d, 100)"
    by blast
  have "exec L Train s =
          Inr (s\<lparr>world := w, trained_model := Some [(''booster'', Booster b), (''history'', History h)]\<rparr>)"
    if "xgb_dask_train L cl notebook_params d 100 (world s) = Inr ((b, h), w)" for b h w
    using that by (simp add: a call_def)
  then show "\<exists>cl d. train_args s = Inr (cl, notebook_params, d, 100) \<and>
         (\<forall>b h w. xgb_dask_train L cl notebook_params d 100 (world s) = Inr ((b, h), w) \<longrightarrow>
            exec L Train s =
              Inr (s\<lparr>world := w,
                     trained_model := Some [(''booster'', Booster b), (''history'', History h)]\<rparr>))"
    using a by blast
next
  fix s
  assume "(SetParam, s) \<in> set (fst (run L notebook s0))"
  then show "\<exists>m b h. trained_model s = Some m \<and>
         map_of m ''booster'' = Some b \<and> map_of m ''history'' = Some h \<and>
         booster s = Some b \<and> history s = Some h"
    by (rule after_extractions)
next
  fix s
  assume "(SetParam, s) \<in> set (fst (run L notebook s0)) \<and>
        (trained_model s0 = None \<or>
         (\<exists>p p'. (Train, p) \<in> set (fst (run L notebook s0)) \<and> exec L Train p = Inr p'))"
  then show "\<exists>b h. trained_model s = Some [(''booster'', Booster b), (''history'', History h)] \<and>
         booster s = Some (Booster b) \<and> history s = Some (History h)"
    using before_set_param [of s L s0] by blast
next
  show "length (filter (\<lambda>(c, s). c = Train) (fst (run L notebook s0))) \<le> 1"
    by (rule started_at_most_once)
qed

theorem training_call_witness:
  "\<exists>s t. (Train, s) \<in> set (fst (run ok_lib notebook fresh)) \<and>
     train_args s = Inr (2, notebook_params, 3, 100) \<and>
     xgb_dask_train ok_lib 2 notebook_params 3 100 (world s) = Inr ((4, []), Suc (world s)) \<and>
     exec ok_lib Train s =
       Inr (s\<lparr>world := Suc (world s),
              trained_model := Some [(''booster'', Booster 4), (''history'', History [])]\<rparr>) \<and>
     (SetParam, t) \<in> set (fst (run ok_lib notebook fresh)) \<and>
     trained_model fresh = None \<and>
     trained_model t = Some [(''booster'', Booster 4), (''history'', History [])] \<and>
     booster t = Some (Booster 4) \<and> history t = Some (History [])"
proof -
  from ok_first_cells [of "xgb_dask_train ok_lib"] obtain s5 where
    s5: "snd (run ok_lib (take 5 notebook) fresh) = Inr s5"
      "world s5 = 8" "client s5 = Some 2" "dtrain s5 = Some 3"
    unfolding ok_lib_train by blast
  define p where "p = s5\<lparr>params := Some notebook_params\<rparr>"
  define s15 where "s15 = p\<lparr>world := 9,
    trained_model := Some [(''booster'', Booster 4), (''history'', History [])]\<rparr>"
  define s16 where "s16 = s15\<lparr>booster := Some (Booster 4)\<rparr>"
  define s17 where "s17 = s16\<lparr>history := Some (History [])\<rparr>"
  have e14: "exec ok_lib AssignParams s5 = Inr p"
    by (simp add: p_def)
  have a14: "train_args p = Inr (2, notebook_params, 3, 100)"
    by (simp add: train_args_def var_def getitem_dict_def notebook_params_def p_def s5)
  have w14: "world p = 8"
    by (simp add: p_def s5)
  have e15: "exec ok_lib Train p = Inr s15"
    by (simp add: a14 w14 call_def ok_lib_def s15_def)
  have e16: "exec ok_lib GetBooster s15 = Inr s16"
    by (simp add: var_def getitem_dict_def s15_def s16_def)
  have e17: "exec ok_lib GetHistory s16 = Inr s17"
    by (simp add: var_def getitem_dict_def s15_def s16_def s17_def)
  have d5: "drop 5 notebook = Timed [AssignParams, Train] # drop 6 notebook"
    and d6: "drop 6 notebook = Plain [GetBooster, GetHistory, SetParam] # drop 7 notebook"
    and l: "5 < length notebook" "6 < length notebook"
    and n6: "take 6 notebook = take 5 notebook @ [Timed [AssignParams, Train]]"
    by (simp_all add: notebook_def)
  have "(Train, p) \<in> set (fst (run_body ok_lib (body (Timed [AssignParams, Train])) s5))"
    by (simp add: run_body_Cons_Inr [OF e14] run_body_Cons_Inr [OF e15])
  then have "(Train, p) \<in> set (fst (run ok_lib (drop 5 notebook) s5))"
    unfolding d5 using trace_cell_in_run by blast
  then have m14: "(Train, p) \<in> set (fst (run ok_lib notebook fresh))"
    using trace_drop_in_run [OF l(1) s5(1)] by blast
  have "snd (run ok_lib [Timed [AssignParams, Train]] s5) = Inr s15"
    by (simp add: run.simps run_body_Cons_Inr [OF e14] run_body_Cons_Inr [OF e15])
  then have r6: "snd (run ok_lib (take 6 notebook) fresh) = Inr s15"
    unfolding n6 run_append using s5(1)
    by (cases "run ok_lib (take 5 notebook) fresh") (auto split: prod.splits)
  have "(SetParam, s17) \<in> set (fst (run_body ok_lib (body (Plain [GetBooster, GetHistory, SetParam])) s15))"
    by (cases "exec ok_lib SetParam s17")
      (simp_all add: run_body_Cons_Inr [OF e16] run_body_Cons_Inr [OF e17] run_body_Cons_Inl
        run_body_Cons_Inr)
  then have "(SetParam, s17) \<in> set (fst (run ok_lib (drop 6 notebook) s15))"
    unfolding d6 using trace_cell_in_run by blast
  then have m17: "(SetParam, s17) \<in> set (fst (run ok_lib notebook fresh))"
    using trace_drop_in_run [OF l(2) r6] by blast
  have f: "trained_model fresh = None"
    by (simp add: fresh_def init_def)
  note t = training_call [of ok_lib fresh]
  from t m14 obtain cl d where
    c: "train_args p = Inr (cl, notebook_params, d, 100)"
      "\<forall>b h w. xgb_dask_train ok_lib cl notebook_params d 100 (world p) = Inr ((b, h), w) \<longrightarrow>
         exec ok_lib Train p =
           Inr (p\<lparr>world := w,
                  trained_model := Some [(''booster'', Booster b), (''history'', History h)]\<rparr>)"
    by blast
  have cd: "cl = 2" "d = 3"
    using c(1) a14 by simp_all
  have x: "xgb_dask_train ok_lib 2 notebook_params 3 100 (world p) = Inr ((4, []), Suc (world p))"
    by (simp add: ok_lib_def)
  from c(2) [unfolded cd] x
  have y: "exec ok_lib Train p =
       Inr (p\<lparr>world := Suc (world p),
              trained_model := Some [(''booster'', Booster 4), (''history'', History [])]\<rparr>)"
    by blast
  from t m17 f obtain b h where
    z: "trained_model s17 = Some [(''booster'', Booster b), (''history'', History h)]"
      "booster s17 = Some (Booster b)" "history s17 = Some (History h)"
    by blast
  have "trained_model s17 = Some [(''booster'', Booster 4), (''history'', History [])]"
    by (simp add: s17_def s16_def s15_def)
  then have "b = 4" "h = []" using z(1) by simp_all
  then show ?thesis
    using m14 c(1) cd x y m17 z f by blast
qed


text \<open>
  C8.  The notebook's own code catches nothing, but the \<^verbatim>\<open>%%time\<close> magic of three cells does.
  Whenever a statement is started in a run and its library call raises \<open>e\<close>, or any other
  step of the statement does, the statement raises exactly \<open>e\<close>, and

    \<^item> if the statement stands in a cell without \<^verbatim>\<open>%%time\<close> (every statement but the training
      call and the two prediction methods), the run ends there: the trace ends with this
      statement and the result of the run is \<open>e\<close>;

    \<^item> if it is the training call, the rest of its cell is skipped, the traceback is shown,
      and the run goes on with the cell after the training cell, whose first statement
      \<^verbatim>\<open>booster = trained_model['booster']\<close> is started;

    \<^item> if it is Method 1, the run goes on likewise with the cell of Method 2;

    \<^item> if it is Method 2, the last cell, the run ends normally, the traceback shown.

  So the sentence of the specification, that execution ends at the raising step with exactly
  that error and that nothing runs after it, holds in the cells without \<^verbatim>\<open>%%time\<close> only.
\<close>

theorem library_error_ends_run_or_cell:
  assumes "(c, s) \<in> set (fst (run L notebook s0))"
    and "library_raises L c s = Some e \<or> (\<exists>s'. exec L c s = Inl (e, s'))"
  shows "\<exists>s' tr. exec L c s = Inl (e, s') \<and>
      (c \<noteq> Train \<and> c \<noteq> Method1 \<and> c \<noteq> Method2 \<longrightarrow>
         run L notebook s0 = (tr @ [(c, s)], Inl e)) \<and>
      (c = Train \<longrightarrow>
         run L notebook s0 =
           (tr @ (c, s) # fst (run L (drop 6 notebook) (show_traceback e s')),
            snd (run L (drop 6 notebook) (show_traceback e s'))) \<and>
         hd (fst (run L (drop 6 notebook) (show_traceback e s'))) =
           (GetBooster, show_traceback e s')) \<and>
      (c = Method1 \<longrightarrow>
         run L notebook s0 =
           (tr @ (c, s) # fst (run L (drop 8 notebook) (show_traceback e s')),
            snd (run L (drop 8 notebook) (show_traceback e s'))) \<and>
         hd (fst (run L (drop 8 notebook) (show_traceback e s'))) =
           (Method2, show_traceback e s')) \<and>
      (c = Method2 \<longrightarrow> run L notebook s0 = (tr @ [(c, s)], Inr (show_traceback e s')))"
proof -
  from assms(2) obtain s' where
    ex: "exec L c s = Inl (e, s')"
    using exec_library_raises [of L c s e] by blast
  from run_trace_entry [OF assms(1)] obtain i si where
    i: "i < length notebook" "snd (run L (take i notebook) s0) = Inr si"
      "(c, s) \<in> set (fst (run_body L (body (notebook ! i)) si))"
    by blast
  from run_body_trace_entry [OF i(3)] obtain k where
    k: "k < length (body (notebook ! i))" "body (notebook ! i) ! k = c"
      "snd (run_body L (take k (body (notebook ! i))) si) = Inr s"
    by blast
  have mem: "c \<in> set (body (notebook ! i))"
    using i(3) by (rule run_body_trace_in)
  have ex': "exec L (body (notebook ! i) ! k) s = Inl (e, s')"
    using ex k(2) by simp
  note ce = cell_error [OF i(1,2) k(1,3) ex']
  define tr where "tr = fst (run L (take i notebook) s0) @
    fst (run_body L (take k (body (notebook ! i))) si)"
  have na: "c \<noteq> AssignParams"
    using ex by auto
  have plain: "run L notebook s0 = (tr @ [(c, s)], Inl e)"
    if "c \<noteq> Train" "c \<noteq> Method1" "c \<noteq> Method2"
  proof -
    from plain_cells [OF i(1) mem na that] obtain cs where cs: "notebook ! i = Plain cs"
      by blast
    show ?thesis
      using ce(1) [OF cs] k(2) by (simp add: tr_def cs)
  qed
  have train: "run L notebook s0 =
           (tr @ (c, s) # fst (run L (drop 6 notebook) (show_traceback e s')),
            snd (run L (drop 6 notebook) (show_traceback e s'))) \<and>
         hd (fst (run L (drop 6 notebook) (show_traceback e s'))) =
           (GetBooster, show_traceback e s')"
    if "c = Train"
  proof -
    have "5 < length notebook" "Train \<in> set (body (notebook ! 5))"
      by (simp_all add: notebook_def)
    then have i5: "i = 5"
      using cell_unique [OF i(1), of 5 c] mem that by simp
    have cs: "notebook ! i = Timed [AssignParams, Train]"
      by (simp add: i5 notebook_def)
    have d6: "drop (Suc i) notebook = drop 6 notebook"
      by (simp add: i5)
    have "run L notebook s0 =
           (tr @ (c, s) # fst (run L (drop 6 notebook) (show_traceback e s')),
            snd (run L (drop 6 notebook) (show_traceback e s')))"
      using ce(2) [OF cs] k(2) by (simp add: tr_def cs d6)
    moreover have "hd (fst (run L (drop 6 notebook) (show_traceback e s'))) =
           (GetBooster, show_traceback e s')"
      by (simp add: notebook_def hd_run)
    ultimately show ?thesis by blast
  qed
  have m1: "run L notebook s0 =
           (tr @ (c, s) # fst (run L (drop 8 notebook) (show_traceback e s')),
            snd (run L (drop 8 notebook) (show_traceback e s'))) \<and>
         hd (fst (run L (drop 8 notebook) (show_traceback e s'))) =
           (Method2, show_traceback e s')"
    if "c = Method1"
  proof -
    have "7 < length notebook" "Method1 \<in> set (body (notebook ! 7))"
      by (simp_all add: notebook_def)
    then have i7: "i = 7"
      using cell_unique [OF i(1), of 7 c] mem that by simp
    have cs: "notebook ! i = Timed [Method1]"
      by (simp add: i7 notebook_def)
    have d8: "drop (Suc i) notebook = drop 8 notebook"
      by (simp add: i7)
    have "run L notebook s0 =
           (tr @ (c, s) # fst (run L (drop 8 notebook) (show_traceback e s')),
            snd (run L (drop 8 notebook) (show_traceback e s')))"
      using ce(2) [OF cs] k(2) by (simp add: tr_def cs d8)
    moreover have "hd (fst (run L (drop 8 notebook) (show_traceback e s'))) =
           (Method2, show_traceback e s')"
      by (simp add: notebook_def hd_run)
    ultimately show ?thesis by blast
  qed
  have m2: "run L notebook s0 = (tr @ [(c, s)], Inr (show_traceback e s'))"
    if "c = Method2"
  proof -
    have "8 < length notebook" "Method2 \<in> set (body (notebook ! 8))"
      by (simp_all add: notebook_def)
    then have i8: "i = 8"
      using cell_unique [OF i(1), of 8 c] mem that by simp
    have cs: "notebook ! i = Timed [Method2]"
      by (simp add: i8 notebook_def)
    have "drop (Suc i) notebook = []"
      by (simp add: i8 notebook_def)
    then show ?thesis
      using ce(2) [OF cs] k(2) by (simp add: tr_def cs)
  qed
  show ?thesis
    using ex plain train m1 m2 by (intro exI [of _ s'] exI [of _ tr]) blast
qed

theorem library_error_ends_run_or_cell_witness:
  "(MakeCluster, ex_before_cluster) \<in> set (fst (run cluster_fails_lib notebook fresh)) \<and>
   library_raises cluster_fails_lib MakeCluster ex_before_cluster = Some (LibraryError 1) \<and>
   exec cluster_fails_lib MakeCluster ex_before_cluster =
     Inl (LibraryError 1, ex_before_cluster\<lparr>world := 3\<rparr>) \<and>
   snd (run cluster_fails_lib notebook fresh) = Inl (LibraryError 1) \<and>
   last (fst (run cluster_fails_lib notebook fresh)) = (MakeCluster, ex_before_cluster) \<and>
   (\<exists>p. (Train, p) \<in> set (fst (run train_fails_lib notebook fresh)) \<and>
      library_raises train_fails_lib Train p = Some (LibraryError 3) \<and>
      exec train_fails_lib Train p = Inl (LibraryError 3, p\<lparr>world := 9\<rparr>) \<and>
      hd (fst (run train_fails_lib (drop 6 notebook)
            (show_traceback (LibraryError 3) (p\<lparr>world := 9\<rparr>)))) =
        (GetBooster, show_traceback (LibraryError 3) (p\<lparr>world := 9\<rparr>)))"
proof -
  have h1: "(MakeCluster, ex_before_cluster) \<in> set (fst (run cluster_fails_lib notebook fresh))"
    by (simp add: eval_defs cluster_fails_lib_def ex_before_cluster_def fresh_def)
  have h2: "library_raises cluster_fails_lib MakeCluster ex_before_cluster = Some (LibraryError 1)"
    by (simp add: raised_def cluster_fails_lib_def ok_lib_def ex_before_cluster_def init_def)
  have x: "exec cluster_fails_lib MakeCluster ex_before_cluster =
     Inl (LibraryError 1, ex_before_cluster\<lparr>world := 3\<rparr>)"
    by (simp add: call_def var_def cluster_fails_lib_def ok_lib_def ex_before_cluster_def init_def)
  from library_error_ends_run_or_cell [OF h1 disjI1 [OF h2]] obtain tr where
    "run cluster_fails_lib notebook fresh = (tr @ [(MakeCluster, ex_before_cluster)], Inl (LibraryError 1))"
    by auto
  then have plain: "snd (run cluster_fails_lib notebook fresh) = Inl (LibraryError 1) \<and>
      last (fst (run cluster_fails_lib notebook fresh)) = (MakeCluster, ex_before_cluster)"
    by simp
  from ok_first_cells [of "\<lambda>c p d n w. Inl (LibraryError 3, Suc w)"] obtain s5 where
    s5: "snd (run train_fails_lib (take 5 notebook) fresh) = Inr s5"
      "world s5 = 8" "client s5 = Some 2" "dtrain s5 = Some 3"
    unfolding train_fails_lib_def by auto
  define p where "p = s5\<lparr>params := Some notebook_params\<rparr>"
  have e14: "exec train_fails_lib AssignParams s5 = Inr p"
    by (simp add: p_def)
  have a14: "train_args p = Inr (2, notebook_params, 3, 100)"
    by (simp add: train_args_def var_def getitem_dict_def notebook_params_def p_def s5)
  have w14: "world p = 8"
    by (simp add: p_def s5)
  have e15: "exec train_fails_lib Train p = Inl (LibraryError 3, p\<lparr>world := 9\<rparr>)"
    by (simp add: a14 w14 call_def train_fails_lib_def ok_lib_def)
  have g1: "library_raises train_fails_lib Train p = Some (LibraryError 3)"
    by (simp add: a14 raised_def train_fails_lib_def ok_lib_def)
  have d5: "drop 5 notebook = Timed [AssignParams, Train] # drop 6 notebook"
    and l: "5 < length notebook"
    by (simp_all add: notebook_def)
  have "(Train, p) \<in> set (fst (run_body train_fails_lib (body (Timed [AssignParams, Train])) s5))"
    by (simp add: run_body_Cons_Inr [OF e14] run_body_Cons_Inl [OF e15])
  then have "(Train, p) \<in> set (fst (run train_fails_lib (drop 5 notebook) s5))"
    unfolding d5 using trace_cell_in_run by blast
  then have g0: "(Train, p) \<in> set (fst (run train_fails_lib notebook fresh))"
    using trace_drop_in_run [OF l s5(1)] by blast
  from library_error_ends_run_or_cell [OF g0 disjI1 [OF g1]] obtain s' where
    "exec train_fails_lib Train p = Inl (LibraryError 3, s')"
    "hd (fst (run train_fails_lib (drop 6 notebook) (show_traceback (LibraryError 3) s'))) =
       (GetBooster, show_traceback (LibraryError 3) s')"
    by auto
  then have "hd (fst (run train_fails_lib (drop 6 notebook)
            (show_traceback (LibraryError 3) (p\<lparr>world := 9\<rparr>)))) =
        (GetBooster, show_traceback (LibraryError 3) (p\<lparr>world := 9\<rparr>))"
    using e15 by simp
  then have timed: "\<exists>p. (Train, p) \<in> set (fst (run train_fails_lib notebook fresh)) \<and>
      library_raises train_fails_lib Train p = Some (LibraryError 3) \<and>
      exec train_fails_lib Train p = Inl (LibraryError 3, p\<lparr>world := 9\<rparr>) \<and>
      hd (fst (run train_fails_lib (drop 6 notebook)
            (show_traceback (LibraryError 3) (p\<lparr>world := 9\<rparr>)))) =
        (GetBooster, show_traceback (LibraryError 3) (p\<lparr>world := 9\<rparr>))"
    using g0 g1 e15 by (intro exI [of _ p]) simp
  show ?thesis
    using h1 h2 x plain timed by simp
qed


text \<open>
  The sentence of the specification fails at the training call.  With a library whose
  \<^verbatim>\<open>xgb.dask.train\<close> raises, in a fresh kernel, the run does not end with the error of the
  library: the cell after the training cell is started, and the run ends there with the
  \<^verbatim>\<open>NameError\<close> of the unbound name \<^verbatim>\<open>trained_model\<close>.
\<close>

theorem train_error_is_not_final_counterexample:
  "xgb_dask_train train_fails_lib 2 notebook_params 3 100 8 = Inl (LibraryError 3, 9) \<and>
   snd (run train_fails_lib notebook fresh) = Inl NameError \<and>
   map fst (fst (run train_fails_lib notebook fresh)) =
     [EnvMagic, Imports, RunHostname, AssignIPADDR, MakeCluster, MakeClient, MakeFrame,
      FromCudf, SplitTrain, SplitTest, Version, Wait, MakeDMatrix, AssignParams, Train,
      GetBooster]"
proof -
  from ok_first_cells [of "\<lambda>c p d n w. Inl (LibraryError 3, Suc w)"] obtain s5 where
    s5: "snd (run train_fails_lib (take 5 notebook) fresh) = Inr s5"
      "map fst (fst (run train_fails_lib (take 5 notebook) fresh)) =
         [EnvMagic, Imports, RunHostname, AssignIPADDR, MakeCluster, MakeClient, MakeFrame,
          FromCudf, SplitTrain, SplitTest, Version, Wait, MakeDMatrix]"
      "world s5 = 8" "client s5 = Some 2" "dtrain s5 = Some 3" "trained_model s5 = None"
    unfolding train_fails_lib_def by auto
  have l: "5 < length notebook"
    by (simp add: notebook_def)
  have r: "run train_fails_lib (drop 5 notebook) s5 =
      ([(AssignParams, s5), (Train, s5\<lparr>params := Some notebook_params\<rparr>),
        (GetBooster, show_traceback (LibraryError 3) (s5\<lparr>params := Some notebook_params, world := 9\<rparr>))],
       Inl NameError)"
    by (simp add: notebook_def run.simps run_body.simps call_def try_py_def var_def
        train_args_def getitem_dict_def notebook_params_def train_fails_lib_def ok_lib_def s5)
  have "xgb_dask_train train_fails_lib 2 notebook_params 3 100 8 = Inl (LibraryError 3, 9)"
    by (simp add: train_fails_lib_def ok_lib_def)
  then show ?thesis
    by (simp add: run_split [OF l s5(1)] r s5(2))
qed

end
